theory Spec2Isabelle
  imports Complex_Main
begin

section \<open>Numbers\<close>

text \<open>
  JavaScript numbers are modelled as the reals they denote: rounding and the infinities
  are outside the model. The one \<open>NaN\<close> the detectors can produce from real inputs, the
  quotient \<open>0 / 0\<close> of the fall-angle computation, is modelled explicitly as \<open>None\<close>.
  \<open>Date.now()\<close> is an \<open>int\<close> of milliseconds, passed to every handler as \<open>now\<close>.
\<close>

text \<open>\<open>Math.atan2(y, x)\<close>, by quadrant.\<close>

definition atan2 :: "real \<Rightarrow> real \<Rightarrow> real" where
  "atan2 y x =
     (if 0 < x then arctan (y / x)
      else if x < 0 then (if 0 \<le> y then arctan (y / x) + pi else arctan (y / x) - pi)
      else if 0 < y then pi / 2
      else if y < 0 then - (pi / 2)
      else 0)"

text \<open>The remainder operator \<open>a % b\<close>: the quotient is truncated towards zero.\<close>

definition js_rem :: "real \<Rightarrow> real \<Rightarrow> real" where
  "js_rem a b =
     a - b * of_int (if 0 \<le> a / b then \<lfloor>a / b\<rfloor> else \<lceil>a / b\<rceil>)"

section \<open>Geo math\<close>

definition toRadians :: "real \<Rightarrow> real" where
  "toRadians deg = deg * (pi / 180)"

definition toDegrees :: "real \<Rightarrow> real" where
  "toDegrees rad = rad * (180 / pi)"

definition computeBearing :: "real \<Rightarrow> real \<Rightarrow> real \<Rightarrow> real \<Rightarrow> real" where
  "computeBearing lat1 lon1 lat2 lon2 =
     (let phi1 = toRadians lat1;
          phi2 = toRadians lat2;
          dlam = toRadians (lon2 - lon1);
          y = sin dlam * cos phi2;
          x = cos phi1 * sin phi2 - sin phi1 * cos phi2 * cos dlam;
          theta = atan2 y x
      in js_rem (toDegrees theta + 360) 360)"

record coord =
  latitude :: real
  longitude :: real

text \<open>The argument \<open>a\<close> of the two square roots of \<open>calculateDistance\<close>.\<close>

definition haversine_a :: "coord \<Rightarrow> coord \<Rightarrow> real" where
  "haversine_a coord1 coord2 =
     (let lat1 = latitude coord1; lon1 = longitude coord1;
          lat2 = latitude coord2; lon2 = longitude coord2;
          phi1 = (lat1 * pi) / 180;
          phi2 = (lat2 * pi) / 180;
          dphi = ((lat2 - lat1) * pi) / 180;
          dlam = ((lon2 - lon1) * pi) / 180
      in (sin (dphi / 2))\<^sup>2 + cos phi1 * cos phi2 * (sin (dlam / 2))\<^sup>2)"

definition calculateDistance :: "coord \<Rightarrow> coord \<Rightarrow> real" where
  "calculateDistance coord1 coord2 =
     (let R = 6371000;
          a = haversine_a coord1 coord2;
          c = 2 * atan2 (sqrt a) (sqrt (1 - a))
      in R * c)"

section \<open>The tracking screen: data\<close>

text \<open>
  The first tracking screen (bump, fall, turn and stop detection with a Kalman-smoothed
  distance). Its \<open>useState\<close> values and \<open>useRef\<close> cells are the fields of one record;
  a state setter \<open>setX(prev => f(prev))\<close> is the update \<open>X := f (X s)\<close>.
  \<open>pausedRef\<close> and \<open>resultShownRef\<close> are copies of \<open>paused\<close> and \<open>showResults\<close> kept
  by an effect, so the handlers read the two state fields.
  Pending \<open>setTimeout\<close> callbacks are kept in \<open>timers\<close>, the toasts shown in \<open>toasts\<close>,
  the location provider's active watches in \<open>watches\<close>. The countdown of the start
  button is left out, and so are the over-speed effect and the ramp, crash and backward
  hooks, which write \<open>overSpeedCount\<close>, \<open>previousSpeedRef\<close>, \<open>inclineCount\<close>, \<open>crashCount\<close>
  and \<open>backwardCount\<close>: no handler below reads those.
\<close>

definition NOISE_THRESHOLD :: real where "NOISE_THRESHOLD = 3.0"
definition STILLNESS_DURATION :: int where "STILLNESS_DURATION = 15000"
definition STANDING_STILL_THRESHOLD :: real where "STANDING_STILL_THRESHOLD = 0.05"
definition noiseFloorGyro :: real where "noiseFloorGyro = 0.1"
definition MINOR_JERK_THRESHOLD :: real where "MINOR_JERK_THRESHOLD = 2.5"
definition MAJOR_JERK_THRESHOLD :: real where "MAJOR_JERK_THRESHOLD = 5.0"
definition bumpThreshold :: real where "bumpThreshold = 0.5"
definition bumpMajorThreshold :: real where "bumpMajorThreshold = 1.2"
definition FALL_ANGLE_THRESHOLD :: real where "FALL_ANGLE_THRESHOLD = 45"
definition FALL_DETECTION_DURATION :: int where "FALL_DETECTION_DURATION = 500"

text \<open>A sensor reading \<open>{x, y, z}\<close>.\<close>

record vec3 =
  vx :: real
  vy :: real
  vz :: real

text \<open>The \<open>coords\<close> of a position; \<open>None\<close> is an absent (\<open>null\<close> or \<open>undefined\<close>) field.\<close>

record position =
  pos_latitude :: real
  pos_longitude :: real
  pos_accuracy :: "real option"
  pos_speed :: "real option"
  pos_heading :: "real option"

text \<open>
  An entry \<open>{start, end, duration}\<close> of \<open>stops\<close>. The duration is computed by
  \<open>finalizeStop\<close>; \<open>start\<close> and \<open>end\<close> are read inside the state updater, which the model
  runs at the call.
\<close>

record stop_entry =
  stop_start :: "int option"
  stop_end :: int
  stop_duration :: int

text \<open>The second argument of a toast: a literal, or a number printed by \<open>toFixed(2)\<close>.\<close>

datatype label = Str string | Fixed2 real

datatype timer_action = ClearCooldown | StillAlert

record timer =
  timer_id :: nat
  fire_at :: int
  timer_action :: timer_action

record tracker =
  location :: "(coord \<times> int option) option"
  heading :: "real option"
  forwardHeading :: "real option"
  speed :: real
  tracking :: bool
  paused :: bool
  startTime :: "int option"
  distanceTraveled :: real
  averageSpeed :: real
  duration :: real
  showResults :: bool
  minorJerkCount :: nat
  majorJerkCount :: nat
  sharpLeftCount :: nat
  sharpRightCount :: nat
  bumpMajorCount :: nat
  bumpMinorCount :: nat
  stopCount :: nat
  totalStopTime :: int
  stops :: "stop_entry list"
  rating :: nat
  overSpeedCount :: nat
  fallCount :: nat
  isFallen :: bool
  crashCount :: nat
  backwardCount :: nat
  inclineCount :: nat
  fallDetectionStartRef :: "int option"
  baselineFallRef :: "vec3 option"
  baselineZRef :: "real option"
  locationSubscription :: "nat option"
  watches :: "nat list"
  lastLocation :: "coord option"
  lastLocationTimeRef :: "int option"
  speedReadings :: "real list"
  previousSpeedRef :: real
  filteredLocation :: "coord option"
  pLat :: "real option"
  pLon :: "real option"
  cumulativeDistance :: real
  currentStopStartRef :: "int option"
  stillAlertTimeoutRef :: "nat option"
  lastAccelRef :: "vec3 option"
  crashCooldownInternalRef :: bool
  timers :: "timer list"
  nextTimerId :: nat
  toasts :: "(string \<times> label) list"

text \<open>The values of the first render: every \<open>useState\<close> and \<open>useRef\<close> initialiser.\<close>

definition initialTracker :: tracker where
  "initialTracker =
     \<lparr>location = None, heading = None, forwardHeading = None, speed = 0,
      tracking = False, paused = False,
      startTime = None, distanceTraveled = 0, averageSpeed = 0, duration = 0,
      showResults = False, minorJerkCount = 0, majorJerkCount = 0, sharpLeftCount = 0,
      sharpRightCount = 0, bumpMajorCount = 0, bumpMinorCount = 0, stopCount = 0,
      totalStopTime = 0, stops = [], rating = 0, overSpeedCount = 0, fallCount = 0,
      isFallen = False, crashCount = 0, backwardCount = 0, inclineCount = 0,
      fallDetectionStartRef = None, baselineFallRef = None, baselineZRef = None,
      locationSubscription = None, watches = [], lastLocation = None, lastLocationTimeRef = None,
      speedReadings = [], previousSpeedRef = 0, filteredLocation = None, pLat = None,
      pLon = None,
      cumulativeDistance = 0, currentStopStartRef = None, stillAlertTimeoutRef = None,
      lastAccelRef = None, crashCooldownInternalRef = False, timers = [],
      nextTimerId = 1, toasts = []\<rparr>"

text \<open>
  Truthiness of a cell holding \<open>null\<close> or a number (\<open>if (ref.current)\<close>): a number is
  truthy unless it is zero. \<open>nullToZero\<close> is the value \<open>null\<close> takes in arithmetic.
\<close>

definition truthy :: "'a::zero option \<Rightarrow> bool" where
  "truthy r = (case r of None \<Rightarrow> False | Some n \<Rightarrow> n \<noteq> 0)"

definition nullToZero :: "'a::zero option \<Rightarrow> 'a" where
  "nullToZero r = (case r of None \<Rightarrow> 0 | Some n \<Rightarrow> n)"

text \<open>Comparisons of a possibly-\<open>NaN\<close> number with a number: false on \<open>NaN\<close>.\<close>

definition num_gt :: "real option \<Rightarrow> real \<Rightarrow> bool" where
  "num_gt a t = (case a of None \<Rightarrow> False | Some x \<Rightarrow> t < x)"

definition num_lt :: "real option \<Rightarrow> real \<Rightarrow> bool" where
  "num_lt a t = (case a of None \<Rightarrow> False | Some x \<Rightarrow> x < t)"

definition toFixed2 :: "real option \<Rightarrow> label" where
  "toFixed2 a = (case a of None \<Rightarrow> Str ''NaN'' | Some x \<Rightarrow> Fixed2 x)"

section \<open>Toasts and timers\<close>

definition showToastNotification :: "string \<Rightarrow> label \<Rightarrow> tracker \<Rightarrow> tracker" where
  "showToastNotification cause intensityLabel s =
     s\<lparr>toasts := toasts s @ [(cause, intensityLabel)]\<rparr>"

definition showAssistanceAlertToast :: "tracker \<Rightarrow> tracker" where
  "showAssistanceAlertToast s =
     s\<lparr>toasts := toasts s @ [(''Assistance'', Str ''Do you need any help?'')]\<rparr>"

text \<open>\<open>setTimeout(callback, delay)\<close> called at time \<open>now\<close>: the new timer's id and the state.\<close>

definition setTimeout :: "timer_action \<Rightarrow> int \<Rightarrow> int \<Rightarrow> tracker \<Rightarrow> nat \<times> tracker" where
  "setTimeout act delay now s =
     (nextTimerId s,
      s\<lparr>timers := timers s @ [\<lparr>timer_id = nextTimerId s, fire_at = now + delay, timer_action = act\<rparr>],
        nextTimerId := Suc (nextTimerId s)\<rparr>)"

definition clearTimeout :: "nat \<Rightarrow> tracker \<Rightarrow> tracker" where
  "clearTimeout i s = s\<lparr>timers := filter (\<lambda>t. timer_id t \<noteq> i) (timers s)\<rparr>"

definition runTimer :: "timer_action \<Rightarrow> tracker \<Rightarrow> tracker" where
  "runTimer act s =
     (case act of
        ClearCooldown \<Rightarrow> s\<lparr>crashCooldownInternalRef := False\<rparr>
      | StillAlert \<Rightarrow> showAssistanceAlertToast s)"

text \<open>The event loop runs every timer that is due before it delivers an event at \<open>now\<close>.\<close>

definition fireDueTimers :: "int \<Rightarrow> tracker \<Rightarrow> tracker" where
  "fireDueTimers now s =
     foldl (\<lambda>s' t. runTimer (timer_action t) s')
       (s\<lparr>timers := filter (\<lambda>t. now < fire_at t) (timers s)\<rparr>)
       (filter (\<lambda>t. fire_at t \<le> now) (timers s))"

section \<open>Stop detection\<close>

definition finalizeStop :: "int \<Rightarrow> tracker \<Rightarrow> tracker" where
  "finalizeStop now s =
     (let s1 = (if truthy (stillAlertTimeoutRef s)
                then (clearTimeout (nullToZero (stillAlertTimeoutRef s)) s)\<lparr>stillAlertTimeoutRef := None\<rparr>
                else s);
          stopDuration = now - nullToZero (currentStopStartRef s1);
          s2 = (if STILLNESS_DURATION \<le> stopDuration
                then s1\<lparr>stopCount := stopCount s1 + 1,
                        stops := stops s1 @
                          [\<lparr>stop_start = currentStopStartRef s1, stop_end = now,
                            stop_duration = stopDuration\<rparr>],
                        totalStopTime := totalStopTime s1 + stopDuration\<rparr>
                else s1)
      in s2\<lparr>currentStopStartRef := None\<rparr>)"

text \<open>The test of the stillness detector: all three axes moved less than the threshold.\<close>

definition standingStill :: "vec3 \<Rightarrow> vec3 \<Rightarrow> bool" where
  "standingStill v l =
     (let deltaX = \<bar>vx v - vx l\<bar>;
          deltaY = \<bar>vy v - vy l\<bar>;
          deltaZ = \<bar>vz v - vz l\<bar>
      in deltaX < STANDING_STILL_THRESHOLD \<and>
         deltaY < STANDING_STILL_THRESHOLD \<and>
         deltaZ < STANDING_STILL_THRESHOLD)"

definition stillnessDetection :: "vec3 \<Rightarrow> int \<Rightarrow> tracker \<Rightarrow> tracker" where
  "stillnessDetection v now s =
     (let s1 =
        (case lastAccelRef s of
           None \<Rightarrow> s
         | Some l \<Rightarrow>
             if standingStill v l
             then (if \<not> truthy (currentStopStartRef s)
                   then (let r = setTimeout StillAlert STILLNESS_DURATION now
                                   (s\<lparr>currentStopStartRef := Some now\<rparr>)
                         in (snd r)\<lparr>stillAlertTimeoutRef := Some (fst r)\<rparr>)
                   else s)
             else if truthy (currentStopStartRef s) then finalizeStop now s
             else s)
      in s1\<lparr>lastAccelRef := Some v\<rparr>)"

section \<open>Bump detection\<close>

text \<open>
  \<open>handleBumpEvent\<close> is called with the two bump-count setters and
  \<open>crashCooldownInternalRef\<close>, its only call.
\<close>

definition handleBumpEvent :: "real \<Rightarrow> int \<Rightarrow> tracker \<Rightarrow> tracker" where
  "handleBumpEvent adjustedZ now s =
     (let s1 = (if bumpMajorThreshold \<le> \<bar>adjustedZ\<bar>
                then showToastNotification ''Bump'' (Str ''Major'')
                       (s\<lparr>bumpMajorCount := bumpMajorCount s + 1\<rparr>)
                else showToastNotification ''Bump'' (Str ''Minor'')
                       (s\<lparr>bumpMinorCount := bumpMinorCount s + 1\<rparr>));
          s2 = s1\<lparr>crashCooldownInternalRef := True\<rparr>
      in snd (setTimeout ClearCooldown 1000 now s2))"

definition bumpDetection :: "vec3 \<Rightarrow> int \<Rightarrow> tracker \<Rightarrow> tracker" where
  "bumpDetection v now s =
     (if \<not> isFallen s \<and> \<not> crashCooldownInternalRef s
      then (let z = vz v;
                baseline = (case baselineZRef s of
                              None \<Rightarrow> z
                            | Some b \<Rightarrow> if \<bar>z - b\<bar> < 0.2 then b * 0.95 + z * 0.05 else b);
                s1 = s\<lparr>baselineZRef := Some baseline\<rparr>;
                adjustedZ = z - baseline
            in if bumpThreshold < \<bar>adjustedZ\<bar> then handleBumpEvent adjustedZ now s1 else s1)
      else s)"

section \<open>Fall detection\<close>

text \<open>
  The angle in degrees between the reading and the gravity baseline. When a vector is
  zero the quotient is \<open>0 / 0\<close>, which is \<open>NaN\<close> (\<open>None\<close>), and so is the angle.
\<close>

definition fallAngle :: "vec3 \<Rightarrow> vec3 \<Rightarrow> real option" where
  "fallAngle v b =
     (let dot = vx v * vx b + vy v * vy b + vz v * vz b;
          magCurrent = sqrt (vx v * vx v + vy v * vy v + vz v * vz v);
          magBaseline = sqrt ((vx b)\<^sup>2 + (vy b)\<^sup>2 + (vz b)\<^sup>2)
      in if magCurrent * magBaseline = 0 then None
         else Some (arccos (dot / (magCurrent * magBaseline)) * (180 / pi)))"

definition fallDetection :: "vec3 \<Rightarrow> int \<Rightarrow> tracker \<Rightarrow> tracker" where
  "fallDetection v now s =
     (let b = (case baselineFallRef s of None \<Rightarrow> v | Some b0 \<Rightarrow> b0);
          s1 = s\<lparr>baselineFallRef := Some b\<rparr>;
          angle = fallAngle v b
      in if \<not> isFallen s1
         then (if num_gt angle FALL_ANGLE_THRESHOLD
               then (case fallDetectionStartRef s1 of
                       None \<Rightarrow> s1\<lparr>fallDetectionStartRef := Some now\<rparr>
                     | Some t0 \<Rightarrow>
                         if FALL_DETECTION_DURATION \<le> now - t0
                         then (showToastNotification ''Fall'' (toFixed2 angle) s1)
                                \<lparr>fallCount := fallCount s1 + 1, isFallen := True,
                                 fallDetectionStartRef := None\<rparr>
                         else s1)
               else s1\<lparr>fallDetectionStartRef := None\<rparr>)
         else if num_lt angle FALL_ANGLE_THRESHOLD then s1\<lparr>isFallen := False\<rparr>
         else s1)"

text \<open>The callback of \<open>accelerometer.subscribe\<close>.\<close>

definition accelerometerHandler :: "vec3 \<Rightarrow> int \<Rightarrow> tracker \<Rightarrow> tracker" where
  "accelerometerHandler v now s =
     (if showResults s then s
      else if \<not> paused s
      then fallDetection v now (bumpDetection v now (stillnessDetection v now s))
      else s)"

section \<open>Turn detection\<close>

text \<open>The callback of \<open>gyroscope.subscribe\<close>.\<close>

definition gyroscopeHandler :: "vec3 \<Rightarrow> int \<Rightarrow> tracker \<Rightarrow> tracker" where
  "gyroscopeHandler v now s =
     (if showResults s then s
      else if crashCooldownInternalRef s then s
      else (let absX = \<bar>vx v\<bar>; absZ = \<bar>vz v\<bar>
            in if absX < noiseFloorGyro \<and> absZ < noiseFloorGyro then s
               else (let maxVal = max absX absZ
                     in if maxVal < MINOR_JERK_THRESHOLD then s
                        else (let major = (MAJOR_JERK_THRESHOLD \<le> maxVal);
                                  left = (if absZ \<le> absX then 0 < vx v else 0 < vz v);
                                  s1 = (if left then s\<lparr>sharpLeftCount := sharpLeftCount s + 1\<rparr>
                                        else s\<lparr>sharpRightCount := sharpRightCount s + 1\<rparr>);
                                  s2 = (if major then s1\<lparr>majorJerkCount := majorJerkCount s1 + 1\<rparr>
                                        else s1\<lparr>minorJerkCount := minorJerkCount s1 + 1\<rparr>);
                                  s3 = showToastNotification
                                         (if left then ''Sharp Left Turn'' else ''Sharp Right Turn'')
                                         (Str (if major then ''Major'' else ''Minor'')) s2;
                                  s4 = s3\<lparr>crashCooldownInternalRef := True\<rparr>
                              in snd (setTimeout ClearCooldown 1000 now s4)))))"

section \<open>Location filter\<close>

text \<open>
  The speed of a fix when the device reports none (or a negative one): the distance from
  the previous raw location over the elapsed seconds.
\<close>

definition derivedSpeed :: "position \<Rightarrow> int \<Rightarrow> tracker \<Rightarrow> real" where
  "derivedSpeed coords now s =
     (case lastLocation s of
        None \<Rightarrow> 0
      | Some l \<Rightarrow>
          if truthy (lastLocationTimeRef s)
          then (let dt = real_of_int (now - nullToZero (lastLocationTimeRef s)) / 1000;
                    dist = calculateDistance l
                             \<lparr>latitude = pos_latitude coords, longitude = pos_longitude coords\<rparr>
                in if 0 < dt then dist / dt else 0)
          else 0)"

definition computedSpeed :: "position \<Rightarrow> int \<Rightarrow> tracker \<Rightarrow> real" where
  "computedSpeed coords now s =
     (case pos_speed coords of
        None \<Rightarrow> derivedSpeed coords now s
      | Some v \<Rightarrow> if 0 \<le> v then v else derivedSpeed coords now s)"

text \<open>The scalar Kalman update of the filtered location, and the distance gate.\<close>

definition kalmanUpdate :: "coord \<Rightarrow> coord \<Rightarrow> real \<Rightarrow> tracker \<Rightarrow> tracker" where
  "kalmanUpdate f raw cs s =
     (let R = 0.0001; Q = 0.0001;
          kalmanGainLat = nullToZero (pLat s) / (nullToZero (pLat s) + R);
          newLat = latitude f + kalmanGainLat * (latitude raw - latitude f);
          s1 = s\<lparr>pLat := Some ((1 - kalmanGainLat) * nullToZero (pLat s) + Q)\<rparr>;
          kalmanGainLon = nullToZero (pLon s1) / (nullToZero (pLon s1) + R);
          newLon = longitude f + kalmanGainLon * (longitude raw - longitude f);
          s2 = s1\<lparr>pLon := Some ((1 - kalmanGainLon) * nullToZero (pLon s1) + Q)\<rparr>;
          newFilteredLocation = \<lparr>latitude = newLat, longitude = newLon\<rparr>;
          deltaDistance = calculateDistance f newFilteredLocation;
          s3 = s2\<lparr>filteredLocation := Some newFilteredLocation\<rparr>
      in if NOISE_THRESHOLD < deltaDistance \<or> 0.2 < cs
         then s3\<lparr>cumulativeDistance := cumulativeDistance s3 + deltaDistance\<rparr>
         else s3)"

text \<open>The callback of \<open>Geolocation.watchPosition\<close>.\<close>

definition watchPositionCallback :: "position \<Rightarrow> int \<Rightarrow> tracker \<Rightarrow> tracker" where
  "watchPositionCallback coords now s =
     (if showResults s then s
      else if \<not> paused s
      then (if truthy (pos_accuracy coords) \<and> num_gt (pos_accuracy coords) 20 then s
            else (let raw = \<lparr>latitude = pos_latitude coords, longitude = pos_longitude coords\<rparr>;
                      cs = computedSpeed coords now s;
                      s1 = s\<lparr>lastLocationTimeRef := Some now, speed := cs,
                             speedReadings := speedReadings s @ [cs],
                             location := Some (raw, Some now)\<rparr>;
                      s2 = (case pos_heading coords of
                              None \<Rightarrow> s1
                            | Some h \<Rightarrow> s1\<lparr>heading := Some h\<rparr>);
                      s3 = (case filteredLocation s2 of
                              None \<Rightarrow> s2\<lparr>filteredLocation := Some raw, pLat := Some 1,
                                          pLon := Some 1\<rparr>
                            | Some f \<Rightarrow> kalmanUpdate f raw cs s2)
                  in s3\<lparr>lastLocation := Some raw\<rparr>))
      else s)"

section \<open>Session controller\<close>

text \<open>\<open>beginTracking\<close>; \<open>w\<close> is the watch id that \<open>Geolocation.watchPosition\<close> returns.\<close>

definition beginTracking :: "nat \<Rightarrow> int \<Rightarrow> tracker \<Rightarrow> tracker" where
  "beginTracking w now s =
     s\<lparr>tracking := True, paused := False, startTime := Some now, speedReadings := [],
       cumulativeDistance := 0, distanceTraveled := 0, lastLocation := None,
       lastLocationTimeRef := None, filteredLocation := None, pLat := None, pLon := None,
       baselineZRef := None, previousSpeedRef := 0, baselineFallRef := None,
       locationSubscription := Some w, watches := watches s @ [w]\<rparr>"

definition clearWatch :: "nat \<Rightarrow> tracker \<Rightarrow> tracker" where
  "clearWatch w s = s\<lparr>watches := filter (\<lambda>i. i \<noteq> w) (watches s)\<rparr>"

definition journeyMetrics :: "int \<Rightarrow> tracker \<Rightarrow> tracker" where
  "journeyMetrics now s =
     (let readings = speedReadings s;
          avgSpeed = (if 0 < length readings
                      then sum_list readings / real (length readings) else 0);
          journeyDuration = (if truthy (startTime s)
                             then real_of_int (now - nullToZero (startTime s)) / 1000 else 0)
      in s\<lparr>averageSpeed := avgSpeed, duration := journeyDuration\<rparr>)"

definition stopTracking :: "int \<Rightarrow> tracker \<Rightarrow> tracker" where
  "stopTracking now s =
     (let s1 = s\<lparr>tracking := False\<rparr>;
          s2 = (if truthy (locationSubscription s1)
                then (clearWatch (nullToZero (locationSubscription s1)) s1)
                       \<lparr>locationSubscription := None\<rparr>
                else s1);
          s3 = (if truthy (stillAlertTimeoutRef s2)
                then (clearTimeout (nullToZero (stillAlertTimeoutRef s2)) s2)
                       \<lparr>stillAlertTimeoutRef := None\<rparr>
                else s2)
      in (journeyMetrics now s3)\<lparr>showResults := True\<rparr>)"

text \<open>The \<open>onPress\<close> of the summary's Back button: the reset for a new journey.\<close>

definition newJourneyReset :: "tracker \<Rightarrow> tracker" where
  "newJourneyReset s =
     s\<lparr>showResults := False, cumulativeDistance := 0, distanceTraveled := 0, speed := 0,
       averageSpeed := 0, duration := 0, minorJerkCount := 0, majorJerkCount := 0,
       sharpLeftCount := 0, sharpRightCount := 0, bumpMajorCount := 0, bumpMinorCount := 0,
       stopCount := 0, totalStopTime := 0, stops := [], rating := 0, isFallen := False,
       overSpeedCount := 0, fallCount := 0, crashCount := 0, backwardCount := 0,
       inclineCount := 0, forwardHeading := None, heading := None\<rparr>"

text \<open>
  What can happen to the screen. The accelerometer and gyroscope subscriptions exist
  while \<open>tracking && !paused\<close> (their effects subscribe and unsubscribe), positions
  arrive while the provider has a watch. Each event comes with the clock reading \<open>now\<close>.
\<close>

datatype event =
    Accelerometer vec3
  | Gyroscope vec3
  | Position position
  | Begin nat
  | PressPause
  | PressStop
  | PressBack
  | Tick

definition step :: "tracker \<Rightarrow> int \<times> event \<Rightarrow> tracker" where
  "step s ne =
     (let now = fst ne; s' = fireDueTimers now s
      in case snd ne of
           Accelerometer v \<Rightarrow>
             if tracking s' \<and> \<not> paused s' then accelerometerHandler v now s' else s'
         | Gyroscope v \<Rightarrow>
             if tracking s' \<and> \<not> paused s' then gyroscopeHandler v now s' else s'
         | Position coords \<Rightarrow>
             if watches s' = [] then s' else watchPositionCallback coords now s'
         | Begin w \<Rightarrow> beginTracking w now s'
         | PressPause \<Rightarrow> s'\<lparr>paused := \<not> paused s'\<rparr>
         | PressStop \<Rightarrow> stopTracking now s'
         | PressBack \<Rightarrow> newJourneyReset s'
         | Tick \<Rightarrow> s'\<lparr>distanceTraveled := cumulativeDistance s'\<rparr>)"

definition run :: "tracker \<Rightarrow> (int \<times> event) list \<Rightarrow> tracker" where
  "run s evs = foldl step s evs"

section \<open>The stop-implementation screen\<close>

text \<open>
  The second tracking screen smooths with a low-pass filter. Its location callback and
  its \<open>stopTracking\<close> are modelled on the same record. Its accelerometer callback is
  the stillness detection above, without the two guards; the callback of its alert timer
  speaks and opens the assistance dialog, recorded here as the same assistance toast. The callback tests the variable
  \<open>paused\<close> of the render in which \<open>beginTracking\<close> was created: a closure keeps that
  value, here the parameter \<open>pausedAtBegin\<close>, whatever \<open>setPaused\<close> does later.
  \<open>Platform.OS\<close> is the parameter \<open>os\<close>.
\<close>

definition LPF_ALPHA :: real where "LPF_ALPHA = 0.95"
definition NOISE_THRESHOLD_lpf :: real where "NOISE_THRESHOLD_lpf = 1.0"
definition ACCURACY_THRESHOLD :: real where "ACCURACY_THRESHOLD = 20"

datatype platform = Ios | Android

definition computedSpeed_lpf :: "platform \<Rightarrow> position \<Rightarrow> int \<Rightarrow> tracker \<Rightarrow> real" where
  "computedSpeed_lpf os coords now s =
     (case pos_speed coords of
        None \<Rightarrow> derivedSpeed coords now s
      | Some v \<Rightarrow> if os = Ios \<and> 0 \<le> v then v else derivedSpeed coords now s)"

definition lowPassUpdate :: "coord \<Rightarrow> coord \<Rightarrow> real \<Rightarrow> tracker \<Rightarrow> tracker" where
  "lowPassUpdate f raw cs s =
     (let newFilteredLat = LPF_ALPHA * latitude raw + (1 - LPF_ALPHA) * latitude f;
          newFilteredLon = LPF_ALPHA * longitude raw + (1 - LPF_ALPHA) * longitude f;
          newFilteredLocation = \<lparr>latitude = newFilteredLat, longitude = newFilteredLon\<rparr>;
          deltaDistance = calculateDistance f newFilteredLocation;
          s1 = s\<lparr>filteredLocation := Some newFilteredLocation\<rparr>
      in if NOISE_THRESHOLD_lpf < deltaDistance \<or> 0.2 < cs
         then s1\<lparr>cumulativeDistance := cumulativeDistance s1 + deltaDistance\<rparr>
         else s1)"

definition watchPositionCallback_lpf ::
    "platform \<Rightarrow> bool \<Rightarrow> position \<Rightarrow> int \<Rightarrow> tracker \<Rightarrow> tracker" where
  "watchPositionCallback_lpf os pausedAtBegin coords now s =
     (if \<not> pausedAtBegin
      then (if truthy (pos_accuracy coords) \<and> num_gt (pos_accuracy coords) ACCURACY_THRESHOLD
            then s
            else (let raw = \<lparr>latitude = pos_latitude coords, longitude = pos_longitude coords\<rparr>;
                      cs = computedSpeed_lpf os coords now s;
                      s1 = s\<lparr>lastLocationTimeRef := Some now, speed := cs,
                             speedReadings := speedReadings s @ [cs],
                             location := Some (raw, None)\<rparr>
                  in case filteredLocation s1 of
                       None \<Rightarrow> s1\<lparr>filteredLocation := Some raw\<rparr>
                     | Some f \<Rightarrow> lowPassUpdate f raw cs s1))
      else s)"

definition beginTracking_lpf :: "nat \<Rightarrow> int \<Rightarrow> tracker \<Rightarrow> tracker" where
  "beginTracking_lpf w now s =
     s\<lparr>tracking := True, paused := False, startTime := Some now, speedReadings := [],
       cumulativeDistance := 0, distanceTraveled := 0, lastLocation := None,
       lastLocationTimeRef := None, filteredLocation := None,
       locationSubscription := Some w, watches := watches s @ [w]\<rparr>"

definition stopTracking_lpf :: "int \<Rightarrow> tracker \<Rightarrow> tracker" where
  "stopTracking_lpf now s =
     (let s1 = s\<lparr>tracking := False\<rparr>;
          s2 = (if truthy (locationSubscription s1)
                then (clearWatch (nullToZero (locationSubscription s1)) s1)
                       \<lparr>locationSubscription := None\<rparr>
                else s1)
      in (journeyMetrics now s2)\<lparr>showResults := True\<rparr>)"

section \<open>Observations\<close>

text \<open>A run of the location callback over a sequence of fixes, each with its clock reading.\<close>

definition processFixes :: "tracker \<Rightarrow> (position \<times> int) list \<Rightarrow> tracker" where
  "processFixes s fs = foldl (\<lambda>s' f. watchPositionCallback (fst f) (snd f) s') s fs"

text \<open>The stop counter and the stop time agree with the list of stops.\<close>

definition stopsConsistent :: "tracker \<Rightarrow> bool" where
  "stopsConsistent s =
     (stopCount s = length (stops s) \<and>
      totalStopTime s = sum_list (map stop_duration (stops s)))"

text \<open>The number of Bump toasts shown, the sum of the two bump counters, and the pending
  timers that will end a cooldown.\<close>

definition bumpToasts :: "tracker \<Rightarrow> nat" where
  "bumpToasts s = length (filter (\<lambda>t. fst t = ''Bump'') (toasts s))"

definition bumpCount :: "tracker \<Rightarrow> nat" where
  "bumpCount s = bumpMajorCount s + bumpMinorCount s"

definition cooldownTimers :: "tracker \<Rightarrow> timer list" where
  "cooldownTimers s = filter (\<lambda>t. timer_action t = ClearCooldown) (timers s)"

text \<open>A run of the accelerometer callback over a sequence of readings.\<close>

definition processReadings :: "tracker \<Rightarrow> (vec3 \<times> int) list \<Rightarrow> tracker" where
  "processReadings s rs = foldl (\<lambda>s' r. accelerometerHandler (fst r) (snd r) s') s rs"

text \<open>At most one cooldown timer is pending, and none when the cooldown is over.\<close>

definition cooldownInv :: "tracker \<Rightarrow> bool" where
  "cooldownInv s =
     (length (cooldownTimers s) \<le> 1 \<and> (crashCooldownInternalRef s \<or> cooldownTimers s = []))"


section \<open>Properties of the geo math\<close>

lemma sin_taylor5: "\<bar>sin x - (x - x ^ 3 / 6)\<bar> \<le> \<bar>x\<bar> ^ 5 / 120" for x :: real
proof -
  have s: "(\<Sum>m<5. sin_coeff m * x ^ m) = x - x ^ 3 / 6"
    by (simp add: numeral_eq_Suc sin_coeff_Suc cos_coeff_Suc power3_eq_cube del: of_nat_Suc)
  have f: "inverse (fact 5 :: real) = 1 / 120"
    by (simp add: fact_numeral)
  show ?thesis using Maclaurin_sin_bound [of x 5] unfolding s f by simp
qed

lemma pi_lower: "78 / 25 < pi"
proof -
  have "sin (13 / 25 :: real) \<le> (13/25 - (13/25) ^ 3 / 6) + \<bar>13/25\<bar> ^ 5 / 120"
    using sin_taylor5 [of "13 / 25"] by linarith
  also have "\<dots> < 1 / 2" by (simp add: power_divide)
  finally have "sin (13 / 25 :: real) < sin (pi / 6)" by (simp add: sin_30)
  moreover have "(13 / 25 :: real) \<le> pi / 2" using pi_ge_two by simp
  ultimately have "13 / 25 < pi / 6"
    using sin_mono_less_eq [of "13 / 25" "pi / 6"] pi_gt_zero by simp
  then show ?thesis by simp
qed

lemma pi_upper: "pi < 63 / 20"
proof -
  have "1 / 2 < (21/40 - (21/40) ^ 3 / 6) - \<bar>21/40 :: real\<bar> ^ 5 / 120" by (simp add: power_divide)
  also have "\<dots> \<le> sin (21 / 40 :: real)"
    using sin_taylor5 [of "21 / 40"] by linarith
  finally have "sin (pi / 6) < sin (21 / 40 :: real)" by (simp add: sin_30)
  moreover have "(21 / 40 :: real) \<le> pi / 2" using pi_ge_two by simp
  ultimately have "pi / 6 < 21 / 40"
    using sin_mono_less_eq [of "pi / 6" "21 / 40"] pi_gt_zero by simp
  then show ?thesis by simp
qed

lemma sin_half_sq: "(sin (x / 2))\<^sup>2 = (1 - cos x) / (2::real)"
  using cos_double_sin [of "x / 2"] by simp

lemma convex_unit: 
  fixes h A B :: real
  assumes "0 \<le> h" "h \<le> 1" "0 \<le> A" "A \<le> 1" "0 \<le> B" "B \<le> 1"
  shows "0 \<le> B + h * (A - B) \<and> B + h * (A - B) \<le> 1"
proof -
  have eq: "B + h * (A - B) = h * A + (1 - h) * B" by (simp add: algebra_simps)
  have "0 \<le> h * A + (1 - h) * B" using assms by simp
  moreover have "h * A + (1 - h) * B \<le> h * 1 + (1 - h) * 1"
    using assms by (intro add_mono mult_left_mono) simp_all
  ultimately show ?thesis unfolding eq by simp
qed

lemma half_cos_unit: "0 \<le> (1 - cos (t::real)) / 2 \<and> (1 - cos t) / 2 \<le> 1 \<and> 0 \<le> (1 + cos t) / 2 \<and> (1 + cos t) / 2 \<le> 1"
proof -
  have a: "- 1 \<le> cos t" and b: "cos t \<le> 1" by simp_all
  have "0 \<le> (1 - cos t) / 2" using b by argo
  moreover have "(1 - cos t) / 2 \<le> 1" using a by argo
  moreover have "0 \<le> (1 + cos t) / 2" using a by argo
  moreover have "(1 + cos t) / 2 \<le> 1" using b by argo
  ultimately show ?thesis by blast
qed

lemma haversine_a_range: "0 \<le> haversine_a c1 c2 \<and> haversine_a c1 c2 \<le> 1"
proof -
  define p1 where "p1 = latitude c1 * pi / 180"
  define p2 where "p2 = latitude c2 * pi / 180"
  define dl where "dl = (longitude c2 - longitude c1) * pi / 180"
  define h where "h = (1 - cos dl) / 2"
  define A where "A = (1 + cos (p1 + p2)) / 2"
  define B where "B = (1 - cos (p2 - p1)) / 2"
  have d: "(latitude c2 - latitude c1) * pi / 180 = p2 - p1"
    by (simp add: p1_def p2_def diff_divide_distrib left_diff_distrib)
  have "haversine_a c1 c2 = B + cos p1 * cos p2 * h"
    unfolding haversine_a_def Let_def sin_half_sq d B_def h_def
    unfolding p1_def [symmetric] p2_def [symmetric] dl_def [symmetric] by simp
  also have "cos p1 * cos p2 = A - B"
    unfolding A_def B_def by (simp add: cos_diff cos_add field_simps)
  finally have eq: "haversine_a c1 c2 = B + h * (A - B)" by (simp add: mult.commute)
  show ?thesis unfolding eq
    by (rule convex_unit) (simp_all only: h_def A_def B_def half_cos_unit)
qed

lemma atan2_nonneg: "0 \<le> y \<Longrightarrow> 0 \<le> atan2 y x"
  using arctan_bounded [of "y / x"] 
  by (auto simp: atan2_def zero_le_arctan_iff)

lemma atan2_bounds: "- pi < atan2 y x \<and> atan2 y x \<le> pi"
proof -
  have b: "- (pi / 2) < arctan (y / x)" "arctan (y / x) < pi / 2"
    using arctan_bounded [of "y / x"] by simp_all
  have neg: "x < 0 \<Longrightarrow> 0 \<le> y \<Longrightarrow> arctan (y / x) \<le> 0"
    by (simp add: arctan_le_zero_iff divide_nonneg_neg)
  have pos: "x < 0 \<Longrightarrow> y < 0 \<Longrightarrow> 0 < arctan (y / x)"
    by (simp add: zero_less_arctan_iff divide_neg_neg)
  show ?thesis
    using b neg pos pi_gt_zero by (auto simp: atan2_def)
qed


lemma calculateDistance_nonneg: "0 \<le> calculateDistance c1 c2"
  unfolding calculateDistance_def Let_def
  using atan2_nonneg [of "sqrt (haversine_a c1 c2)" "sqrt (1 - haversine_a c1 c2)"] haversine_a_range [of c1 c2]
  by simp

lemma calculateDistance_same: "calculateDistance P P = 0"
  by (simp add: calculateDistance_def haversine_a_def atan2_def)

lemma js_rem_range:
  assumes "0 \<le> a" "0 < b"
  shows "0 \<le> js_rem a b \<and> js_rem a b < b"
proof -
  define q where "q = a / b"
  have q: "0 \<le> q" using assms by (simp add: q_def)
  have a: "a = b * q" using assms by (simp add: q_def)
  have r: "js_rem a b = b * (q - of_int \<lfloor>q\<rfloor>)"
    using q by (simp add: js_rem_def q_def [symmetric] a right_diff_distrib)
  have "0 \<le> q - of_int \<lfloor>q\<rfloor>" "q - of_int \<lfloor>q\<rfloor> < 1" by linarith+
  then have "0 \<le> b * (q - of_int \<lfloor>q\<rfloor>)" "b * (q - of_int \<lfloor>q\<rfloor>) < b * 1"
    using assms by (simp_all del: mult_1_right)
  then show ?thesis unfolding r by simp
qed

lemma toDegrees_bounds: "- pi < t \<Longrightarrow> t \<le> pi \<Longrightarrow> - 180 < toDegrees t \<and> toDegrees t \<le> 180"
  using pi_gt_zero by (simp add: toDegrees_def field_simps)

lemma computeBearing_range:
  "0 \<le> computeBearing lat1 lon1 lat2 lon2 \<and> computeBearing lat1 lon1 lat2 lon2 < 360"
proof -
  define y where "y = sin (toRadians (lon2 - lon1)) * cos (toRadians lat2)"
  define x where "x = cos (toRadians lat1) * sin (toRadians lat2)
      - sin (toRadians lat1) * cos (toRadians lat2) * cos (toRadians (lon2 - lon1))"
  have "- 180 < toDegrees (atan2 y x)"
    using toDegrees_bounds [of "atan2 y x"] atan2_bounds [of y x] by simp
  then have "0 \<le> toDegrees (atan2 y x) + 360" by simp
  then have "0 \<le> js_rem (toDegrees (atan2 y x) + 360) 360 \<and> js_rem (toDegrees (atan2 y x) + 360) 360 < 360"
    by (rule js_rem_range) simp
  then show ?thesis
    by (simp add: computeBearing_def Let_def x_def y_def)
qed

lemma bearing_north: "computeBearing 0 0 1 0 = 0"
proof -
  have "0 < sin (pi / 180)"
    using pi_gt_zero by (intro sin_gt_zero) simp_all
  then show ?thesis
    by (simp add: computeBearing_def toRadians_def toDegrees_def atan2_def js_rem_def)
qed

lemma dist_val: "calculateDistance \<lparr>latitude = 0, longitude = 0\<rparr> \<lparr>latitude = 0, longitude = 1\<rparr> = 6371000 * (pi / 180)"
proof -
  define t where "t = pi / 360"
  have t: "0 < t" "t < pi / 2" using pi_gt_zero by (simp_all add: t_def)
  have s: "0 < sin t" using t by (intro sin_gt_zero2)
  have c: "0 < cos t" using t by (intro cos_gt_zero) simp_all
  have a: "haversine_a \<lparr>latitude = 0, longitude = 0\<rparr> \<lparr>latitude = 0, longitude = 1\<rparr> = (sin t)\<^sup>2"
    by (simp add: haversine_a_def t_def)
  have "1 - (sin t)\<^sup>2 = (cos t)\<^sup>2" by (simp add: cos_squared_eq)
  then have "atan2 (sqrt ((sin t)\<^sup>2)) (sqrt (1 - (sin t)\<^sup>2)) = arctan (sin t / cos t)"
    using s c by (simp add: atan2_def)
  also have "\<dots> = t" using t arctan_tan [of t] by (simp add: tan_def)
  finally show ?thesis
    by (simp add: calculateDistance_def a t_def)
qed

text \<open>
  C6. The geodesic helpers are total: the two square roots of \<open>calculateDistance\<close> never
  get a negative argument. The distance from a point to itself is 0, a bearing lies in
  [0, 360), the distance from (0, 0) to (0, 1) is within 1% of 111195 m, and the bearing
  from (0, 0) to (1, 0) is 0 degrees.
\<close>

theorem geo_helpers:
  "0 \<le> haversine_a P Q \<and> haversine_a P Q \<le> 1
   \<and> calculateDistance P P = 0
   \<and> 0 \<le> computeBearing lat1 lon1 lat2 lon2 \<and> computeBearing lat1 lon1 lat2 lon2 < 360
   \<and> \<bar>calculateDistance \<lparr>latitude = 0, longitude = 0\<rparr> \<lparr>latitude = 0, longitude = 1\<rparr>
        - 111195\<bar> \<le> 111195 / 100
   \<and> computeBearing 0 0 1 0 = 0"
proof -
  have "6371000 * (pi / 180) - 111195 \<le> 111195 / 100"
    using pi_upper by argo
  moreover have "- (6371000 * (pi / 180) - 111195) \<le> 111195 / 100"
    using pi_lower by argo
  ultimately have "\<bar>6371000 * (pi / 180) - 111195\<bar> \<le> 111195 / 100"
    by (rule abs_leI)
  then show ?thesis
    using haversine_a_range [of P Q] computeBearing_range [of lat1 lon1 lat2 lon2]
    by (simp only: calculateDistance_same dist_val bearing_north)
qed

section \<open>Properties of the location filter\<close>

lemma kalmanUpdate_cumulative:
  "cumulativeDistance s \<le> cumulativeDistance (kalmanUpdate f raw cs s)"
  by (simp add: kalmanUpdate_def Let_def calculateDistance_nonneg)

lemma watchPositionCallback_cumulative:
  "cumulativeDistance s \<le> cumulativeDistance (watchPositionCallback coords now s)"
proof -
  have k: "cumulativeDistance s' = cumulativeDistance s \<Longrightarrow>
           cumulativeDistance s \<le> cumulativeDistance (kalmanUpdate f raw cs s')" for s' f raw cs
    using kalmanUpdate_cumulative [of s' f raw cs] by simp
  show ?thesis
    by (simp add: watchPositionCallback_def Let_def k split: option.split)
qed

lemma processFixes_cumulative:
  "cumulativeDistance s \<le> cumulativeDistance (processFixes s fs)"
proof (induction fs arbitrary: s)
  case Nil
  then show ?case by (simp add: processFixes_def)
next
  case (Cons f fs)
  have "cumulativeDistance s \<le> cumulativeDistance (watchPositionCallback (fst f) (snd f) s)"
    by (rule watchPositionCallback_cumulative)
  also have "\<dots> \<le> cumulativeDistance (processFixes (watchPositionCallback (fst f) (snd f) s) fs)"
    by (rule Cons.IH)
  finally show ?case by (simp add: processFixes_def)
qed

lemma watchPositionCallback_discard:
  "pos_accuracy coords = Some a \<Longrightarrow> 20 < a \<Longrightarrow> watchPositionCallback coords now s = s"
  by (simp add: watchPositionCallback_def truthy_def num_gt_def)

text \<open>
  C1. The cumulative distance never decreases, over one processed fix or a sequence of
  them, since what is added is a haversine distance; and a fix whose accuracy is present
  and above 20 m is discarded: the callback leaves the whole state as it was.
\<close>

theorem distance_monotone:
  "cumulativeDistance s \<le> cumulativeDistance (watchPositionCallback coords now s)
   \<and> cumulativeDistance s \<le> cumulativeDistance (processFixes s fs)
   \<and> (pos_accuracy coords = Some a \<and> 20 < a \<longrightarrow> watchPositionCallback coords now s = s)"
  using watchPositionCallback_cumulative processFixes_cumulative watchPositionCallback_discard
  by blast

theorem distance_monotone_witness:
  "pos_accuracy \<lparr>pos_latitude = 0, pos_longitude = 0, pos_accuracy = Some 25,
       pos_speed = None, pos_heading = None\<rparr> = Some 25 \<and> (20::real) < 25
   \<and> watchPositionCallback \<lparr>pos_latitude = 0, pos_longitude = 0, pos_accuracy = Some 25,
         pos_speed = None, pos_heading = None\<rparr> 1000 (beginTracking 1 0 initialTracker)
       = beginTracking 1 0 initialTracker"
  using distance_monotone [of "beginTracking 1 0 initialTracker"
      "\<lparr>pos_latitude = 0, pos_longitude = 0, pos_accuracy = Some 25,
        pos_speed = None, pos_heading = None\<rparr>" 1000 "[]" 25]
  by simp

section \<open>Properties of stop detection\<close>

lemma clearTimeout_stop_fields:
  "stops (clearTimeout i s) = stops s" "stopCount (clearTimeout i s) = stopCount s"
  "totalStopTime (clearTimeout i s) = totalStopTime s"
  "currentStopStartRef (clearTimeout i s) = currentStopStartRef s"
  by (simp_all add: clearTimeout_def)

lemma finalizeStop_stops:
  "stops (finalizeStop now s) =
     (if STILLNESS_DURATION \<le> now - nullToZero (currentStopStartRef s)
      then stops s @ [\<lparr>stop_start = currentStopStartRef s, stop_end = now,
                        stop_duration = now - nullToZero (currentStopStartRef s)\<rparr>]
      else stops s)"
  by (simp add: finalizeStop_def Let_def clearTimeout_stop_fields)

lemma finalizeStop_stopCount:
  "stopCount (finalizeStop now s) =
     (if STILLNESS_DURATION \<le> now - nullToZero (currentStopStartRef s)
      then stopCount s + 1 else stopCount s)"
  by (simp add: finalizeStop_def Let_def clearTimeout_stop_fields)

lemma finalizeStop_totalStopTime:
  "totalStopTime (finalizeStop now s) =
     (if STILLNESS_DURATION \<le> now - nullToZero (currentStopStartRef s)
      then totalStopTime s + (now - nullToZero (currentStopStartRef s)) else totalStopTime s)"
  by (simp add: finalizeStop_def Let_def clearTimeout_stop_fields)

lemma bumpDetection_stop_fields:
  "stops (bumpDetection v now s) = stops s" "stopCount (bumpDetection v now s) = stopCount s"
  "totalStopTime (bumpDetection v now s) = totalStopTime s"
  by (simp_all add: bumpDetection_def handleBumpEvent_def setTimeout_def
        showToastNotification_def Let_def split: option.split)

lemma fallDetection_stop_fields:
  "stops (fallDetection v now s) = stops s" "stopCount (fallDetection v now s) = stopCount s"
  "totalStopTime (fallDetection v now s) = totalStopTime s"
  by (simp_all add: fallDetection_def showToastNotification_def Let_def split: option.split)


lemma foldl_runTimer_frame:
  assumes "\<And>a s. f (runTimer a s) = f s"
  shows "f (foldl (\<lambda>s' t. runTimer (timer_action t) s') s ts) = f s"
  by (induction ts arbitrary: s) (simp_all add: assms)

lemma fireDueTimers_frame:
  assumes "\<And>a s. f (runTimer a s) = f s" and "\<And>s ts. f (s\<lparr>timers := ts\<rparr>) = f s"
  shows "f (fireDueTimers now s) = f s"
  unfolding fireDueTimers_def
  by (simp add: foldl_runTimer_frame [of f, OF assms(1)] assms(2))

lemma runTimer_stopsConsistent: "stopsConsistent (runTimer a s) = stopsConsistent s"
  by (cases a) (simp_all add: runTimer_def stopsConsistent_def showAssistanceAlertToast_def)

lemma fireDueTimers_stopsConsistent: "stopsConsistent (fireDueTimers now s) = stopsConsistent s"
proof (rule fireDueTimers_frame)
  show "stopsConsistent (runTimer a s') = stopsConsistent s'" for a s'
    by (rule runTimer_stopsConsistent)
  show "stopsConsistent (s'\<lparr>timers := ts\<rparr>) = stopsConsistent s'" for s' ts
    by (simp add: stopsConsistent_def)
qed

lemma finalizeStop_stopsConsistent: "stopsConsistent s \<Longrightarrow> stopsConsistent (finalizeStop now s)"
  by (simp add: stopsConsistent_def finalizeStop_stops finalizeStop_stopCount
        finalizeStop_totalStopTime)

lemma stillnessDetection_stopsConsistent:
  "stopsConsistent s \<Longrightarrow> stopsConsistent (stillnessDetection v now s)"
proof -
  assume a: "stopsConsistent s"
  have f: "stopsConsistent (s'\<lparr>lastAccelRef := x\<rparr>) = stopsConsistent s'" for s' x
    by (simp add: stopsConsistent_def)
  have t: "stopsConsistent ((snd (setTimeout act d now (s\<lparr>currentStopStartRef := Some now\<rparr>)))
             \<lparr>stillAlertTimeoutRef := Some i\<rparr>)" for act d i
    using a by (simp add: stopsConsistent_def setTimeout_def)
  show ?thesis
    using a finalizeStop_stopsConsistent [OF a, of now]
    by (simp add: stillnessDetection_def Let_def f t split: option.split)
qed

lemma accelerometerHandler_stopsConsistent:
  "stopsConsistent s \<Longrightarrow> stopsConsistent (accelerometerHandler v now s)"
  using stillnessDetection_stopsConsistent [of s v now]
  by (simp add: accelerometerHandler_def stopsConsistent_def
        bumpDetection_stop_fields fallDetection_stop_fields)

lemma gyroscopeHandler_stopsConsistent:
  "stopsConsistent (gyroscopeHandler v now s) = stopsConsistent s"
  by (simp add: gyroscopeHandler_def stopsConsistent_def Let_def setTimeout_def
        showToastNotification_def)

lemma kalmanUpdate_stopsConsistent:
  "stopsConsistent (kalmanUpdate f raw cs s) = stopsConsistent s"
  by (simp add: kalmanUpdate_def stopsConsistent_def Let_def)

lemma watchPositionCallback_stopsConsistent:
  "stopsConsistent (watchPositionCallback coords now s) = stopsConsistent s"
proof -
  have k: "stopsConsistent (kalmanUpdate f raw cs s') = stopsConsistent s"
    if "stopsConsistent s' = stopsConsistent s" for f raw cs s'
    using that by (simp add: kalmanUpdate_stopsConsistent)
  show ?thesis
    by (simp add: watchPositionCallback_def Let_def split: option.split)
       (auto simp: stopsConsistent_def intro!: k [unfolded stopsConsistent_def])
qed

lemma beginTracking_stopsConsistent:
  "stopsConsistent (beginTracking w now s) = stopsConsistent s"
  by (simp add: beginTracking_def stopsConsistent_def)

lemma stopTracking_stopsConsistent:
  "stopsConsistent (stopTracking now s) = stopsConsistent s"
  by (simp add: stopTracking_def journeyMetrics_def clearWatch_def clearTimeout_def
        stopsConsistent_def Let_def)

lemma newJourneyReset_stopsConsistent: "stopsConsistent (newJourneyReset s)"
  by (simp add: newJourneyReset_def stopsConsistent_def)

lemma step_stopsConsistent: "stopsConsistent s \<Longrightarrow> stopsConsistent (step s ne)"
proof -
  assume "stopsConsistent s"
  then have a: "stopsConsistent (fireDueTimers (fst ne) s)"
    by (simp add: fireDueTimers_stopsConsistent)
  have p: "stopsConsistent (s'\<lparr>paused := x\<rparr>) = stopsConsistent s'" for s' x
    by (simp add: stopsConsistent_def)
  have d: "stopsConsistent (s'\<lparr>distanceTraveled := y\<rparr>) = stopsConsistent s'" for s' y
    by (simp add: stopsConsistent_def)
  show ?thesis
    using a
    by (cases "snd ne")
       (simp_all add: step_def Let_def accelerometerHandler_stopsConsistent
          gyroscopeHandler_stopsConsistent watchPositionCallback_stopsConsistent
          beginTracking_stopsConsistent stopTracking_stopsConsistent
          newJourneyReset_stopsConsistent p d)
qed

lemma run_stopsConsistent: "stopsConsistent s \<Longrightarrow> stopsConsistent (run s evs)"
  unfolding run_def
  by (induction evs arbitrary: s) (simp_all add: step_stopsConsistent)

text \<open>
  C10. In every state the screen reaches from its first render, under any sequence of
  sensor readings, fixes, timers and button presses, \<open>stopCount\<close> is the length of
  \<open>stops\<close> and \<open>totalStopTime\<close> is the sum of their durations.
\<close>

theorem stops_counter_and_time_agree:
  "stopsConsistent (run initialTracker evs)"
  by (rule run_stopsConsistent) (simp add: stopsConsistent_def initialTracker_def)

theorem stops_counter_and_time_agree_witness:
  "stopsConsistent (run initialTracker
     [(0, Begin 1), (1000, Accelerometer \<lparr>vx = 0, vy = 0, vz = 1\<rparr>), (20000, PressStop)])"
  using stops_counter_and_time_agree
    [of "[(0, Begin 1), (1000, Accelerometer \<lparr>vx = 0, vy = 0, vz = 1\<rparr>), (20000, PressStop)]"]
  by simp

section \<open>Properties of timers and of the bump detector\<close>

lemma runTimer_fields:
  "tracking (runTimer a s) = tracking s" "paused (runTimer a s) = paused s"
  "showResults (runTimer a s) = showResults s" "isFallen (runTimer a s) = isFallen s"
  "baselineZRef (runTimer a s) = baselineZRef s" "bumpCount (runTimer a s) = bumpCount s"
  "bumpToasts (runTimer a s) = bumpToasts s" "timers (runTimer a s) = timers s"
  by (cases a; simp add: runTimer_def showAssistanceAlertToast_def bumpCount_def bumpToasts_def)+

lemma fireDueTimers_fields:
  "tracking (fireDueTimers now s) = tracking s" "paused (fireDueTimers now s) = paused s"
  "showResults (fireDueTimers now s) = showResults s" "isFallen (fireDueTimers now s) = isFallen s"
  "baselineZRef (fireDueTimers now s) = baselineZRef s"
  "bumpCount (fireDueTimers now s) = bumpCount s"
  "bumpToasts (fireDueTimers now s) = bumpToasts s"
proof -
  show "tracking (fireDueTimers now s) = tracking s"
    by (rule fireDueTimers_frame [where f = tracking], rule runTimer_fields, simp)
  show "paused (fireDueTimers now s) = paused s"
    by (rule fireDueTimers_frame [where f = paused], rule runTimer_fields, simp)
  show "showResults (fireDueTimers now s) = showResults s"
    by (rule fireDueTimers_frame [where f = showResults], rule runTimer_fields, simp)
  show "isFallen (fireDueTimers now s) = isFallen s"
    by (rule fireDueTimers_frame [where f = isFallen], rule runTimer_fields, simp)
  show "baselineZRef (fireDueTimers now s) = baselineZRef s"
    by (rule fireDueTimers_frame [where f = baselineZRef], rule runTimer_fields, simp)
  show "bumpCount (fireDueTimers now s) = bumpCount s"
    by (rule fireDueTimers_frame [where f = bumpCount], rule runTimer_fields,
        simp add: bumpCount_def)
  show "bumpToasts (fireDueTimers now s) = bumpToasts s"
    by (rule fireDueTimers_frame [where f = bumpToasts], rule runTimer_fields,
        simp add: bumpToasts_def)
qed

lemma foldl_runTimer_timers:
  "timers (foldl (\<lambda>s' t. runTimer (timer_action t) s') s ts) = timers s"
  by (rule foldl_runTimer_frame) (rule runTimer_fields)

lemma fireDueTimers_timers:
  "timers (fireDueTimers now s) = filter (\<lambda>t. now < fire_at t) (timers s)"
  by (simp add: fireDueTimers_def foldl_runTimer_timers)

lemma fireDueTimers_cooldownTimers:
  "cooldownTimers (fireDueTimers now s) = filter (\<lambda>t. now < fire_at t) (cooldownTimers s)"
  by (simp add: cooldownTimers_def fireDueTimers_timers conj_commute)

lemma foldl_runTimer_cooldown:
  "crashCooldownInternalRef (foldl (\<lambda>s' t. runTimer (timer_action t) s') s ts) =
     (crashCooldownInternalRef s \<and> filter (\<lambda>t. timer_action t = ClearCooldown) ts = [])"
proof (induction ts arbitrary: s)
  case Nil
  then show ?case by simp
next
  case (Cons t ts)
  have "crashCooldownInternalRef (runTimer (timer_action t) s) =
          (crashCooldownInternalRef s \<and> timer_action t \<noteq> ClearCooldown)"
    by (cases "timer_action t") (simp_all add: runTimer_def showAssistanceAlertToast_def)
  then show ?case by (auto simp: Cons.IH)
qed

lemma fireDueTimers_cooldown:
  "crashCooldownInternalRef (fireDueTimers now s) =
     (crashCooldownInternalRef s \<and> filter (\<lambda>t. fire_at t \<le> now) (cooldownTimers s) = [])"
  by (simp add: fireDueTimers_def foldl_runTimer_cooldown cooldownTimers_def conj_commute)


lemma finalizeStop_fields:
  "crashCooldownInternalRef (finalizeStop now s) = crashCooldownInternalRef s"
  "isFallen (finalizeStop now s) = isFallen s"
  "baselineZRef (finalizeStop now s) = baselineZRef s"
  "bumpMajorCount (finalizeStop now s) = bumpMajorCount s"
  "bumpMinorCount (finalizeStop now s) = bumpMinorCount s"
  "toasts (finalizeStop now s) = toasts s"
  "showResults (finalizeStop now s) = showResults s"
  "paused (finalizeStop now s) = paused s"
  "tracking (finalizeStop now s) = tracking s"
  by (simp_all add: finalizeStop_def clearTimeout_def Let_def)

lemma finalizeStop_cooldownTimers:
  "cooldownTimers s = [] \<Longrightarrow> cooldownTimers (finalizeStop now s) = []"
  by (simp add: finalizeStop_def clearTimeout_def Let_def cooldownTimers_def filter_empty_conv)

lemma stillnessDetection_fields:
  "crashCooldownInternalRef (stillnessDetection v now s) = crashCooldownInternalRef s"
  "isFallen (stillnessDetection v now s) = isFallen s"
  "baselineZRef (stillnessDetection v now s) = baselineZRef s"
  "bumpMajorCount (stillnessDetection v now s) = bumpMajorCount s"
  "bumpMinorCount (stillnessDetection v now s) = bumpMinorCount s"
  "toasts (stillnessDetection v now s) = toasts s"
  "showResults (stillnessDetection v now s) = showResults s"
  "paused (stillnessDetection v now s) = paused s"
  "tracking (stillnessDetection v now s) = tracking s"
  by (simp_all add: stillnessDetection_def Let_def finalizeStop_fields setTimeout_def
        split: option.split)

lemma stillnessDetection_bumps:
  "bumpCount (stillnessDetection v now s) = bumpCount s"
  "bumpToasts (stillnessDetection v now s) = bumpToasts s"
  by (simp_all add: bumpCount_def bumpToasts_def stillnessDetection_fields)

lemma stillnessDetection_cooldownTimers:
  "cooldownTimers s = [] \<Longrightarrow> cooldownTimers (stillnessDetection v now s) = []"
  using finalizeStop_cooldownTimers [of s now]
  by (simp add: stillnessDetection_def Let_def setTimeout_def cooldownTimers_def
        split: option.split)

lemma fallDetection_fields:
  "crashCooldownInternalRef (fallDetection v now s) = crashCooldownInternalRef s"
  "baselineZRef (fallDetection v now s) = baselineZRef s"
  "bumpMajorCount (fallDetection v now s) = bumpMajorCount s"
  "bumpMinorCount (fallDetection v now s) = bumpMinorCount s"
  "timers (fallDetection v now s) = timers s"
  "showResults (fallDetection v now s) = showResults s"
  "paused (fallDetection v now s) = paused s"
  "tracking (fallDetection v now s) = tracking s"
  by (simp_all add: fallDetection_def Let_def showToastNotification_def split: option.split)

lemma fallDetection_bumps:
  "bumpCount (fallDetection v now s) = bumpCount s"
  "bumpToasts (fallDetection v now s) = bumpToasts s"
  "cooldownTimers (fallDetection v now s) = cooldownTimers s"
  by (simp_all add: bumpCount_def bumpToasts_def cooldownTimers_def fallDetection_fields)
     (simp add: fallDetection_def Let_def showToastNotification_def split: option.split)

lemma bumpDetection_fields:
  "isFallen (bumpDetection v now s) = isFallen s"
  "showResults (bumpDetection v now s) = showResults s"
  "paused (bumpDetection v now s) = paused s"
  "tracking (bumpDetection v now s) = tracking s"
  by (simp_all add: bumpDetection_def handleBumpEvent_def Let_def showToastNotification_def
        setTimeout_def split: option.split)

lemma bumpDetection_suppressed:
  "isFallen s \<or> crashCooldownInternalRef s \<Longrightarrow> bumpDetection v now s = s"
  by (auto simp: bumpDetection_def)

lemma bumpDetection_fires:
  assumes "\<not> isFallen s" "\<not> crashCooldownInternalRef s" "baselineZRef s = Some b"
    "bumpThreshold < \<bar>vz v - b\<bar>"
  shows "bumpCount (bumpDetection v now s) = bumpCount s + 1"
    "bumpToasts (bumpDetection v now s) = bumpToasts s + 1"
    "crashCooldownInternalRef (bumpDetection v now s)"
    "baselineZRef (bumpDetection v now s) = Some b"
    "map fire_at (cooldownTimers (bumpDetection v now s)) =
       map fire_at (cooldownTimers s) @ [now + 1000]"
  using assms
  by (simp_all add: bumpDetection_def handleBumpEvent_def Let_def showToastNotification_def
        setTimeout_def bumpCount_def bumpToasts_def cooldownTimers_def bumpThreshold_def)

lemma step_Accelerometer:
  "step s (now, Accelerometer v) =
     (if tracking s \<and> \<not> paused s then accelerometerHandler v now (fireDueTimers now s)
      else fireDueTimers now s)"
  by (simp add: step_def Let_def fireDueTimers_fields)

lemma step_accel_session:
  "tracking (step s (now, Accelerometer v)) = tracking s"
  "paused (step s (now, Accelerometer v)) = paused s"
  "showResults (step s (now, Accelerometer v)) = showResults s"
  by (simp_all add: step_Accelerometer accelerometerHandler_def fireDueTimers_fields
        fallDetection_fields bumpDetection_fields stillnessDetection_fields)

lemma step_accel_suppressed:
  assumes "crashCooldownInternalRef (fireDueTimers now s)"
  shows "bumpCount (step s (now, Accelerometer v)) = bumpCount s"
    and "bumpToasts (step s (now, Accelerometer v)) = bumpToasts s"
proof -
  have "bumpDetection v now (stillnessDetection v now (fireDueTimers now s)) =
          stillnessDetection v now (fireDueTimers now s)"
    using assms by (intro bumpDetection_suppressed) (simp add: stillnessDetection_fields)
  then show "bumpCount (step s (now, Accelerometer v)) = bumpCount s"
    and "bumpToasts (step s (now, Accelerometer v)) = bumpToasts s"
    by (simp_all add: step_Accelerometer accelerometerHandler_def fallDetection_bumps
          stillnessDetection_bumps fireDueTimers_fields)
qed

lemma step_accel_fires:
  assumes "tracking s" "\<not> paused s" "\<not> showResults s" "\<not> isFallen s"
    and "\<not> crashCooldownInternalRef (fireDueTimers now s)"
    and "baselineZRef s = Some b" and "bumpThreshold < \<bar>vz v - b\<bar>"
  shows "bumpCount (step s (now, Accelerometer v)) = bumpCount s + 1"
    and "bumpToasts (step s (now, Accelerometer v)) = bumpToasts s + 1"
    and "crashCooldownInternalRef (step s (now, Accelerometer v))"
    and "baselineZRef (step s (now, Accelerometer v)) = Some b"
    and "map fire_at (cooldownTimers (step s (now, Accelerometer v))) =
           map fire_at (cooldownTimers (stillnessDetection v now (fireDueTimers now s)))
             @ [now + 1000]"
proof -
  define a where "a = stillnessDetection v now (fireDueTimers now s)"
  have a: "\<not> isFallen a" "\<not> crashCooldownInternalRef a" "baselineZRef a = Some b"
    using assms by (simp_all add: a_def stillnessDetection_fields fireDueTimers_fields)
  have ab: "bumpCount a = bumpCount s" "bumpToasts a = bumpToasts s"
    by (simp_all add: a_def stillnessDetection_bumps fireDueTimers_fields)
  have e: "step s (now, Accelerometer v) = fallDetection v now (bumpDetection v now a)"
    using assms(1-3) by (simp add: step_Accelerometer accelerometerHandler_def a_def
        fireDueTimers_fields)
  note f = bumpDetection_fires [OF a assms(7), of now]
  show "bumpCount (step s (now, Accelerometer v)) = bumpCount s + 1"
    by (simp add: e fallDetection_bumps f ab)
  show "bumpToasts (step s (now, Accelerometer v)) = bumpToasts s + 1"
    by (simp add: e fallDetection_bumps f ab)
  show "crashCooldownInternalRef (step s (now, Accelerometer v))"
    by (simp add: e fallDetection_fields f)
  show "baselineZRef (step s (now, Accelerometer v)) = Some b"
    by (simp add: e fallDetection_fields f)
  show "map fire_at (cooldownTimers (step s (now, Accelerometer v))) =
           map fire_at (cooldownTimers (stillnessDetection v now (fireDueTimers now s)))
             @ [now + 1000]"
    using f(5) by (simp add: e fallDetection_bumps a_def)
qed

lemma fireDueTimers_cooldownInv: "cooldownInv s \<Longrightarrow> cooldownInv (fireDueTimers now s)"
proof -
  assume a: "cooldownInv s"
  then consider "cooldownTimers s = []" | c where "cooldownTimers s = [c]" "crashCooldownInternalRef s"
    by (cases "cooldownTimers s") (auto simp: cooldownInv_def)
  then show ?thesis
    by cases (auto simp: cooldownInv_def fireDueTimers_cooldown fireDueTimers_cooldownTimers)
qed

lemma filter_keeps_cooldownInv:
  "length xs \<le> 1 \<and> (c \<or> xs = []) \<Longrightarrow>
     length (filter P xs) \<le> 1 \<and> (c \<or> filter P xs = [])"
  by (cases xs) auto

lemma cooldownInv_frame:
  "crashCooldownInternalRef s' = crashCooldownInternalRef s \<Longrightarrow> timers s' = timers s \<Longrightarrow>
     cooldownInv s' = cooldownInv s"
  by (simp add: cooldownInv_def cooldownTimers_def)

lemma finalizeStop_cooldownInv: "cooldownInv s \<Longrightarrow> cooldownInv (finalizeStop now s)"
proof -
  assume a: "cooldownInv s"
  have c: "cooldownTimers (finalizeStop now s) =
             (if truthy (stillAlertTimeoutRef s)
              then filter (\<lambda>t. timer_id t \<noteq> nullToZero (stillAlertTimeoutRef s)) (cooldownTimers s)
              else cooldownTimers s)"
    by (simp add: finalizeStop_def clearTimeout_def Let_def cooldownTimers_def conj_commute)
  show ?thesis
    using a filter_keeps_cooldownInv [of "cooldownTimers s" "crashCooldownInternalRef s"]
    by (simp add: cooldownInv_def c finalizeStop_fields)
qed

lemma stillnessDetection_cooldownInv:
  "cooldownInv s \<Longrightarrow> cooldownInv (stillnessDetection v now s)"
proof -
  assume a: "cooldownInv s"
  have f: "cooldownInv (s'\<lparr>lastAccelRef := x\<rparr>) = cooldownInv s'" for s' x
    by (simp add: cooldownInv_def cooldownTimers_def)
  have t: "cooldownInv ((snd (setTimeout StillAlert d now (s\<lparr>currentStopStartRef := Some now\<rparr>)))
             \<lparr>stillAlertTimeoutRef := Some i\<rparr>)" for d i
    using a by (simp add: cooldownInv_def cooldownTimers_def setTimeout_def)
  show ?thesis
    using a finalizeStop_cooldownInv [OF a, of now]
    by (simp add: stillnessDetection_def Let_def f t split: option.split)
qed

lemma bumpDetection_cooldownInv: "cooldownInv s \<Longrightarrow> cooldownInv (bumpDetection v now s)"
  by (auto simp: cooldownInv_def bumpDetection_def handleBumpEvent_def Let_def
        showToastNotification_def setTimeout_def cooldownTimers_def split: option.split)

lemma fallDetection_cooldownInv: "cooldownInv (fallDetection v now s) = cooldownInv s"
  by (rule cooldownInv_frame) (simp_all add: fallDetection_fields)

lemma accelerometerHandler_cooldownInv:
  "cooldownInv s \<Longrightarrow> cooldownInv (accelerometerHandler v now s)"
  by (simp add: accelerometerHandler_def fallDetection_cooldownInv bumpDetection_cooldownInv
        stillnessDetection_cooldownInv)

lemma gyroscopeHandler_cooldownInv:
  "cooldownInv s \<Longrightarrow> cooldownInv (gyroscopeHandler v now s)"
  by (auto simp: cooldownInv_def gyroscopeHandler_def Let_def showToastNotification_def
        setTimeout_def cooldownTimers_def)

lemma watchPositionCallback_cooldownInv:
  "cooldownInv (watchPositionCallback coords now s) = cooldownInv s"
  by (rule cooldownInv_frame)
     (simp_all add: watchPositionCallback_def kalmanUpdate_def Let_def split: option.split)

lemma stopTracking_cooldownInv: "cooldownInv s \<Longrightarrow> cooldownInv (stopTracking now s)"
proof -
  assume a: "cooldownInv s"
  have c: "cooldownTimers (stopTracking now s) =
             (if truthy (stillAlertTimeoutRef s)
              then filter (\<lambda>t. timer_id t \<noteq> nullToZero (stillAlertTimeoutRef s)) (cooldownTimers s)
              else cooldownTimers s)"
    by (simp add: stopTracking_def journeyMetrics_def clearWatch_def clearTimeout_def Let_def
          cooldownTimers_def conj_commute)
  have f: "crashCooldownInternalRef (stopTracking now s) = crashCooldownInternalRef s"
    by (simp add: stopTracking_def journeyMetrics_def clearWatch_def clearTimeout_def Let_def)
  show ?thesis
    using a filter_keeps_cooldownInv [of "cooldownTimers s" "crashCooldownInternalRef s"]
    by (simp add: cooldownInv_def c f)
qed

lemma step_cooldownInv: "cooldownInv s \<Longrightarrow> cooldownInv (step s ne)"
proof -
  assume "cooldownInv s"
  then have a: "cooldownInv (fireDueTimers (fst ne) s)"
    by (rule fireDueTimers_cooldownInv)
  have b: "cooldownInv (beginTracking w now s') = cooldownInv s'" for w now s'
    by (rule cooldownInv_frame) (simp_all add: beginTracking_def)
  have r: "cooldownInv (newJourneyReset s') = cooldownInv s'" for s'
    by (rule cooldownInv_frame) (simp_all add: newJourneyReset_def)
  have p: "cooldownInv (s'\<lparr>paused := x\<rparr>) = cooldownInv s'" for s' x
    by (rule cooldownInv_frame) simp_all
  have d: "cooldownInv (s'\<lparr>distanceTraveled := y\<rparr>) = cooldownInv s'" for s' y
    by (rule cooldownInv_frame) simp_all
  show ?thesis
    using a
    by (cases "snd ne")
       (simp_all add: step_def Let_def accelerometerHandler_cooldownInv
          gyroscopeHandler_cooldownInv watchPositionCallback_cooldownInv
          stopTracking_cooldownInv b r p d)
qed

lemma run_cooldownInv: "cooldownInv s \<Longrightarrow> cooldownInv (run s evs)"
  unfolding run_def
  by (induction evs arbitrary: s) (simp_all add: step_cooldownInv)

text \<open>
  In every state the screen reaches, when the cooldown is over no timer that would end
  one is pending: the hypothesis of the debounce property holds of such a state.
\<close>

lemma cooldown_over_no_timer_pending:
  "crashCooldownInternalRef (run initialTracker evs) \<or> cooldownTimers (run initialTracker evs) = []"
  using run_cooldownInv [of initialTracker evs]
  by (simp add: cooldownInv_def initialTracker_def cooldownTimers_def)

text \<open>
  C3. Two accelerometer readings that each deviate from the z baseline by more than the
  bump threshold, delivered to an active session whose cooldown is over and in which
  no fall is in force at either reading: when the second arrives less than 1000 ms after
  the first (200 ms, say), one Bump toast is shown and the bump counters grow by one in
  all, the second reading being suppressed by the cooldown that the first one set; when
  it arrives more than 1000 ms after (1200 ms, say), two toasts and two counts.
\<close>

theorem bump_debounce:
  assumes "tracking s" and "\<not> paused s" and "\<not> showResults s"
    and "\<not> isFallen s"
    and "\<not> crashCooldownInternalRef s" and "cooldownTimers s = []"
    and "baselineZRef s = Some b"
    and "bumpThreshold < \<bar>vz v1 - b\<bar>" and "bumpThreshold < \<bar>vz v2 - b\<bar>"
    and "\<not> isFallen (step s (t1, Accelerometer v1))"
  shows "(d < 1000 \<longrightarrow>
           bumpToasts (step (step s (t1, Accelerometer v1)) (t1 + d, Accelerometer v2))
             = bumpToasts s + 1
           \<and> bumpCount (step (step s (t1, Accelerometer v1)) (t1 + d, Accelerometer v2))
             = bumpCount s + 1)
       \<and> (1000 < d \<longrightarrow>
           bumpToasts (step (step s (t1, Accelerometer v1)) (t1 + d, Accelerometer v2))
             = bumpToasts s + 2
           \<and> bumpCount (step (step s (t1, Accelerometer v1)) (t1 + d, Accelerometer v2))
             = bumpCount s + 2)"
proof -
  define s1 where "s1 = step s (t1, Accelerometer v1)"
  have c0: "\<not> crashCooldownInternalRef (fireDueTimers t1 s)"
    using assms(5) by (simp add: fireDueTimers_cooldown)
  have t0: "cooldownTimers (stillnessDetection v1 t1 (fireDueTimers t1 s)) = []"
    using assms(6) by (intro stillnessDetection_cooldownTimers)
                      (simp add: fireDueTimers_cooldownTimers)
  note first = step_accel_fires [OF assms(1-4) c0 assms(7,8), folded s1_def]
  have session: "tracking s1" "\<not> paused s1" "\<not> showResults s1" "\<not> isFallen s1"
    using assms(1-3,10) by (simp_all add: s1_def step_accel_session)
  from first(5) t0 obtain c where c: "cooldownTimers s1 = [c]" "fire_at c = t1 + 1000"
    by (auto simp: map_eq_Cons_conv)
  have cd: "crashCooldownInternalRef (fireDueTimers (t1 + d) s1) = (d < 1000)"
    using first(3) c by (simp add: fireDueTimers_cooldown)
  have short: "bumpToasts (step s1 (t1 + d, Accelerometer v2)) = bumpToasts s + 1 \<and>
               bumpCount (step s1 (t1 + d, Accelerometer v2)) = bumpCount s + 1"
    if "d < 1000"
    using that cd first(1,2) by (simp add: step_accel_suppressed)
  have long: "bumpToasts (step s1 (t1 + d, Accelerometer v2)) = bumpToasts s + 2 \<and>
              bumpCount (step s1 (t1 + d, Accelerometer v2)) = bumpCount s + 2"
    if "1000 < d"
  proof -
    have n: "\<not> crashCooldownInternalRef (fireDueTimers (t1 + d) s1)"
      using that cd by simp
    show ?thesis
      using step_accel_fires(1,2) [OF session n first(4) assms(9)] first(1,2) by simp
  qed
  show ?thesis using short long unfolding s1_def by blast
qed

theorem bump_debounce_witness:
  "bumpToasts (step (step (initialTracker\<lparr>tracking := True, baselineZRef := Some 0\<rparr>)
        (1000, Accelerometer \<lparr>vx = 0, vy = 0, vz = 1\<rparr>))
        (1200, Accelerometer \<lparr>vx = 0, vy = 0, vz = 1\<rparr>)) = 1
   \<and> bumpToasts (step (step (initialTracker\<lparr>tracking := True, baselineZRef := Some 0\<rparr>)
        (1000, Accelerometer \<lparr>vx = 0, vy = 0, vz = 1\<rparr>))
        (2200, Accelerometer \<lparr>vx = 0, vy = 0, vz = 1\<rparr>)) = 2"
proof -
  define s where "s = initialTracker\<lparr>tracking := True, baselineZRef := Some 0\<rparr>"
  define v where "v = \<lparr>vx = 0, vy = 0, vz = 1\<rparr>"
  have h: "tracking s" "\<not> paused s" "\<not> showResults s" "\<not> isFallen s"
    "\<not> crashCooldownInternalRef s" "cooldownTimers s = []" "baselineZRef s = Some 0"
    by (simp_all add: s_def initialTracker_def cooldownTimers_def)
  have z: "bumpThreshold < \<bar>vz v - 0\<bar>"
    by (simp add: v_def bumpThreshold_def)
  have a: "fallAngle v v = Some 0"
    by (simp add: fallAngle_def v_def)
  have "isFallen (fallDetection v 1000 s') = False"
    if "\<not> isFallen s'" "baselineFallRef s' = None" for s'
    using that a by (simp add: fallDetection_def Let_def num_gt_def FALL_ANGLE_THRESHOLD_def)
  then have f: "\<not> isFallen (step s (1000, Accelerometer v))"
    using h
    by (simp add: step_Accelerometer accelerometerHandler_def bumpDetection_fields
          stillnessDetection_fields fireDueTimers_fields)
       (simp add: bumpDetection_def handleBumpEvent_def stillnessDetection_def Let_def
          showToastNotification_def setTimeout_def fireDueTimers_def s_def initialTracker_def)
  have b0: "bumpToasts s = 0"
    by (simp add: bumpToasts_def s_def initialTracker_def)
  show ?thesis
    using bump_debounce [OF h z z f, of 200] bump_debounce [OF h z z f, of 1200] b0
    by (simp add: s_def v_def)
qed

section \<open>Properties of a stillness from its start to its end\<close>




lemma finalizeStop_lastAccelRef: "lastAccelRef (finalizeStop now s) = lastAccelRef s"
  by (simp add: finalizeStop_def clearTimeout_def Let_def)













section \<open>Properties of the fall detector\<close>

lemma lagrange3:
  fixes a b c x y z :: real
  shows "(a * x + b * y + c * z)\<^sup>2 \<le> (a * a + b * b + c * c) * (x\<^sup>2 + y\<^sup>2 + z\<^sup>2)"
proof -
  have "(a * a + b * b + c * c) * (x\<^sup>2 + y\<^sup>2 + z\<^sup>2) - (a * x + b * y + c * z)\<^sup>2
          = (a * y - x * b)\<^sup>2 + (a * z - x * c)\<^sup>2 + (b * z - y * c)\<^sup>2"
    by (simp add: power2_eq_square algebra_simps)
  moreover have "0 \<le> (a * y - x * b)\<^sup>2 + (a * z - x * c)\<^sup>2 + (b * z - y * c)\<^sup>2"
    by simp
  ultimately show ?thesis by linarith
qed

lemma dot_le_magnitudes:
  fixes a b c x y z :: real
  shows "\<bar>a * x + b * y + c * z\<bar> \<le> sqrt (a * a + b * b + c * c) * sqrt (x\<^sup>2 + y\<^sup>2 + z\<^sup>2)"
proof -
  have "\<bar>a * x + b * y + c * z\<bar> = sqrt ((a * x + b * y + c * z)\<^sup>2)" by simp
  also have "\<dots> \<le> sqrt ((a * a + b * b + c * c) * (x\<^sup>2 + y\<^sup>2 + z\<^sup>2))"
    by (intro real_sqrt_le_mono lagrange3)
  finally show ?thesis by (simp add: real_sqrt_mult)
qed

text \<open>
  The quotient of the fall angle: when a magnitude is zero the dot product is zero too,
  so the quotient is \<open>0 / 0\<close>; otherwise it lies in [-1, 1], where \<open>Math.acos\<close> is defined.
\<close>

lemma fallAngle_quotient:
  fixes v b :: vec3
  defines "dot \<equiv> vx v * vx b + vy v * vy b + vz v * vz b"
  defines "m \<equiv> sqrt (vx v * vx v + vy v * vy v + vz v * vz v)
                 * sqrt ((vx b)\<^sup>2 + (vy b)\<^sup>2 + (vz b)\<^sup>2)"
  shows "(m = 0 \<longrightarrow> dot = 0) \<and> (m \<noteq> 0 \<longrightarrow> - 1 \<le> dot / m \<and> dot / m \<le> 1)"
proof -
  have le: "\<bar>dot\<bar> \<le> m" unfolding dot_def m_def by (rule dot_le_magnitudes)
  then have "0 \<le> m" by linarith
  have "- 1 \<le> dot / m \<and> dot / m \<le> 1" if "m \<noteq> 0"
  proof -
    have "0 < m" using that \<open>0 \<le> m\<close> by simp
    then show ?thesis using le by (simp add: pos_le_divide_eq pos_divide_le_eq abs_le_iff)
  qed
  then show ?thesis using le by auto
qed

lemma fallAngle_None:
  "fallAngle v b = None \<longleftrightarrow>
     sqrt (vx v * vx v + vy v * vy v + vz v * vz v) = 0 \<or> sqrt ((vx b)\<^sup>2 + (vy b)\<^sup>2 + (vz b)\<^sup>2) = 0"
  by (simp add: fallAngle_def Let_def)

lemma accelerometerHandler_fallen:
  assumes "isFallen s"
  shows "bumpMajorCount (accelerometerHandler v now s) = bumpMajorCount s"
    and "bumpMinorCount (accelerometerHandler v now s) = bumpMinorCount s"
    and "bumpToasts (accelerometerHandler v now s) = bumpToasts s"
    and "bumpCount (accelerometerHandler v now s) = bumpCount s"
proof -
  have "bumpDetection v now (stillnessDetection v now s) = stillnessDetection v now s"
    using assms by (intro bumpDetection_suppressed) (simp add: stillnessDetection_fields)
  then show "bumpMajorCount (accelerometerHandler v now s) = bumpMajorCount s"
    and "bumpMinorCount (accelerometerHandler v now s) = bumpMinorCount s"
    and "bumpToasts (accelerometerHandler v now s) = bumpToasts s"
    and "bumpCount (accelerometerHandler v now s) = bumpCount s"
    by (simp_all add: accelerometerHandler_def fallDetection_fields fallDetection_bumps
          stillnessDetection_fields stillnessDetection_bumps)
qed

lemma stillnessDetection_baselineFallRef:
  "baselineFallRef (stillnessDetection v now s) = baselineFallRef s"
  by (simp add: stillnessDetection_def finalizeStop_def clearTimeout_def setTimeout_def Let_def
        split: option.split)

lemma fallDetection_fallen:
  assumes "isFallen s"
  shows "isFallen (fallDetection v now s) =
           (\<not> num_lt (fallAngle v (case baselineFallRef s of None \<Rightarrow> v | Some b \<Rightarrow> b))
                 FALL_ANGLE_THRESHOLD)"
    and "baselineFallRef (fallDetection v now s) =
           Some (case baselineFallRef s of None \<Rightarrow> v | Some b \<Rightarrow> b)"
  using assms by (simp_all add: fallDetection_def Let_def)

lemma accelerometerHandler_recovers:
  assumes "isFallen s" and "\<not> isFallen (accelerometerHandler v now s)"
  shows "num_lt (fallAngle v (case baselineFallRef s of None \<Rightarrow> v | Some b \<Rightarrow> b))
           FALL_ANGLE_THRESHOLD"
proof -
  have b: "bumpDetection v now (stillnessDetection v now s) = stillnessDetection v now s"
    using assms(1) by (intro bumpDetection_suppressed) (simp add: stillnessDetection_fields)
  have r: "\<not> showResults s \<and> \<not> paused s"
    using assms by (auto simp: accelerometerHandler_def split: if_splits)
  have "\<not> isFallen (fallDetection v now (stillnessDetection v now s))"
    using assms(2) r by (simp add: accelerometerHandler_def b)
  then show ?thesis
    using fallDetection_fallen(1) [of "stillnessDetection v now s" v now] assms(1)
    by (simp add: stillnessDetection_fields stillnessDetection_baselineFallRef)
qed

lemma accelerometerHandler_stays_fallen:
  assumes "isFallen s" and "baselineFallRef s = Some b"
    and "\<not> num_lt (fallAngle v b) FALL_ANGLE_THRESHOLD"
  shows "isFallen (accelerometerHandler v now s)"
    and "baselineFallRef (accelerometerHandler v now s) = Some b"
proof -
  have b: "bumpDetection v now (stillnessDetection v now s) = stillnessDetection v now s"
    using assms(1) by (intro bumpDetection_suppressed) (simp add: stillnessDetection_fields)
  have f: "isFallen (stillnessDetection v now s)"
    "baselineFallRef (stillnessDetection v now s) = Some b"
    using assms by (simp_all add: stillnessDetection_fields stillnessDetection_baselineFallRef)
  show "isFallen (accelerometerHandler v now s)"
    using assms fallDetection_fallen(1) [OF f(1), of v now]
    by (simp add: accelerometerHandler_def b f)
  show "baselineFallRef (accelerometerHandler v now s) = Some b"
    using assms fallDetection_fallen(2) [OF f(1), of v now]
    by (simp add: accelerometerHandler_def b f)
qed

lemma processReadings_fallen:
  assumes "isFallen s" and "baselineFallRef s = Some b"
    and "\<forall>r \<in> set rs. \<not> num_lt (fallAngle (fst r) b) FALL_ANGLE_THRESHOLD"
  shows "isFallen (processReadings s rs) \<and> bumpCount (processReadings s rs) = bumpCount s
         \<and> bumpToasts (processReadings s rs) = bumpToasts s"
  using assms
proof (induction rs arbitrary: s)
  case Nil
  then show ?case by (simp add: processReadings_def)
next
  case (Cons r rs)
  have n: "\<not> num_lt (fallAngle (fst r) b) FALL_ANGLE_THRESHOLD" using Cons.prems(3) by simp
  note st = accelerometerHandler_stays_fallen [OF Cons.prems(1,2) n, of "snd r"]
  have "isFallen (processReadings (accelerometerHandler (fst r) (snd r) s) rs)
        \<and> bumpCount (processReadings (accelerometerHandler (fst r) (snd r) s) rs)
            = bumpCount (accelerometerHandler (fst r) (snd r) s)
        \<and> bumpToasts (processReadings (accelerometerHandler (fst r) (snd r) s) rs)
            = bumpToasts (accelerometerHandler (fst r) (snd r) s)"
    using Cons.prems(3) by (intro Cons.IH st) simp
  then show ?case
    by (simp add: processReadings_def accelerometerHandler_fallen [OF Cons.prems(1)])
qed

lemma fireDueTimers_baselineFallRef:
  "baselineFallRef (fireDueTimers now s) = baselineFallRef s"
proof (rule fireDueTimers_frame [where f = baselineFallRef])
  show "baselineFallRef (runTimer a s') = baselineFallRef s'" for a s'
    by (cases a) (simp_all add: runTimer_def showAssistanceAlertToast_def)
  show "baselineFallRef (s'\<lparr>timers := ts\<rparr>) = baselineFallRef s'" for s' ts
    by simp
qed

lemma other_handlers_isFallen:
  "isFallen (gyroscopeHandler v now s) = isFallen s"
  "isFallen (watchPositionCallback coords now s) = isFallen s"
  "isFallen (beginTracking w now s) = isFallen s"
  "isFallen (stopTracking now s) = isFallen s"
  by (simp_all add: gyroscopeHandler_def watchPositionCallback_def kalmanUpdate_def
        beginTracking_def stopTracking_def journeyMetrics_def clearWatch_def clearTimeout_def
        showToastNotification_def setTimeout_def Let_def split: option.split)

lemma step_clears_fall:
  assumes "isFallen s" and "\<not> isFallen (step s (now, e))" and "e \<noteq> PressBack"
  shows "\<exists>v. e = Accelerometer v \<and>
           num_lt (fallAngle v (case baselineFallRef s of None \<Rightarrow> v | Some b \<Rightarrow> b))
             FALL_ANGLE_THRESHOLD"
proof (cases e)
  case (Accelerometer v)
  have f: "isFallen (fireDueTimers now s)" using assms(1) by (simp add: fireDueTimers_fields)
  have "\<not> isFallen (accelerometerHandler v now (fireDueTimers now s))"
    using assms(2) f by (auto simp: Accelerometer step_Accelerometer split: if_splits)
  then show ?thesis
    using accelerometerHandler_recovers [OF f, of v now]
    by (simp add: Accelerometer fireDueTimers_baselineFallRef)
qed (use assms in \<open>auto simp: step_def Let_def fireDueTimers_fields other_handlers_isFallen
       split: if_splits\<close>)

text \<open>
  C4. While \<open>isFallen\<close> holds, an accelerometer reading changes neither bump counter and
  shows no Bump toast, whatever its z value. The reading clears \<open>isFallen\<close> only when
  its angle to the gravity baseline is below 45 degrees, and no other event of a journey
  clears it (the new-journey reset does, after the journey); over any sequence of readings
  whose angles are not below 45 degrees the fall stays in force and no bump is counted.
\<close>

theorem fall_suppresses_bump:
  assumes "isFallen s"
  shows "bumpMajorCount (accelerometerHandler v now s) = bumpMajorCount s
       \<and> bumpMinorCount (accelerometerHandler v now s) = bumpMinorCount s
       \<and> bumpToasts (accelerometerHandler v now s) = bumpToasts s
       \<and> (\<not> isFallen (accelerometerHandler v now s) \<longrightarrow>
            num_lt (fallAngle v (case baselineFallRef s of None \<Rightarrow> v | Some b \<Rightarrow> b))
              FALL_ANGLE_THRESHOLD)
       \<and> (e \<noteq> PressBack \<and> \<not> isFallen (step s (now, e)) \<longrightarrow>
            (\<exists>u. e = Accelerometer u \<and>
               num_lt (fallAngle u (case baselineFallRef s of None \<Rightarrow> u | Some b \<Rightarrow> b))
                 FALL_ANGLE_THRESHOLD))
       \<and> (baselineFallRef s = Some bl
            \<and> (\<forall>r \<in> set rs. \<not> num_lt (fallAngle (fst r) bl) FALL_ANGLE_THRESHOLD) \<longrightarrow>
            isFallen (processReadings s rs) \<and> bumpCount (processReadings s rs) = bumpCount s
            \<and> bumpToasts (processReadings s rs) = bumpToasts s)"
  using accelerometerHandler_fallen [OF assms] accelerometerHandler_recovers [OF assms]
    processReadings_fallen [OF assms] step_clears_fall [OF assms]
  by blast

theorem fall_suppresses_bump_witness:
  "bumpMajorCount (accelerometerHandler \<lparr>vx = 0, vy = 0, vz = 1\<rparr> 1000
      (initialTracker\<lparr>tracking := True, isFallen := True, baselineZRef := Some 0,
         baselineFallRef := Some \<lparr>vx = 1, vy = 0, vz = 0\<rparr>\<rparr>)) = 0
   \<and> bumpToasts (accelerometerHandler \<lparr>vx = 0, vy = 0, vz = 1\<rparr> 1000
      (initialTracker\<lparr>tracking := True, isFallen := True, baselineZRef := Some 0,
         baselineFallRef := Some \<lparr>vx = 1, vy = 0, vz = 0\<rparr>\<rparr>)) = 0
   \<and> isFallen (processReadings
      (initialTracker\<lparr>tracking := True, isFallen := True, baselineZRef := Some 0,
         baselineFallRef := Some \<lparr>vx = 1, vy = 0, vz = 0\<rparr>\<rparr>)
      [(\<lparr>vx = 0, vy = 0, vz = 1\<rparr>, 1000), (\<lparr>vx = 0, vy = 0, vz = 1\<rparr>, 1250)])"
proof -
  define s where "s = initialTracker\<lparr>tracking := True, isFallen := True, baselineZRef := Some 0,
         baselineFallRef := Some \<lparr>vx = 1, vy = 0, vz = 0\<rparr>\<rparr>"
  have f: "isFallen s" by (simp add: s_def)
  have b: "baselineFallRef s = Some \<lparr>vx = 1, vy = 0, vz = 0\<rparr>" by (simp add: s_def)
  have a: "fallAngle \<lparr>vx = 0, vy = 0, vz = 1\<rparr> \<lparr>vx = 1, vy = 0, vz = 0\<rparr> = Some 90"
    by (simp add: fallAngle_def)
  have z: "bumpMajorCount s = 0" "bumpToasts s = 0"
    by (simp_all add: s_def initialTracker_def bumpToasts_def)
  show ?thesis
    using fall_suppresses_bump [OF f, where v = "\<lparr>vx = 0, vy = 0, vz = 1\<rparr>" and now = 1000
        and bl = "\<lparr>vx = 1, vy = 0, vz = 0\<rparr>"
        and rs = "[(\<lparr>vx = 0, vy = 0, vz = 1\<rparr>, 1000), (\<lparr>vx = 0, vy = 0, vz = 1\<rparr>, 1250)]"]
      b a z
    by (simp add: num_lt_def FALL_ANGLE_THRESHOLD_def s_def [symmetric])
qed

lemma fallDetection_degenerate:
  assumes "fallAngle v (case baselineFallRef s of None \<Rightarrow> v | Some b \<Rightarrow> b) = None"
  shows "fallCount (fallDetection v now s) = fallCount s"
    and "isFallen (fallDetection v now s) = isFallen s"
    and "toasts (fallDetection v now s) = toasts s"
    and "fallDetectionStartRef (fallDetection v now s) =
           (if isFallen s then fallDetectionStartRef s else None)"
  using assms by (simp_all add: fallDetection_def Let_def num_gt_def num_lt_def)

text \<open>
  C5, as the code has it. When the reading or the gravity baseline has zero magnitude the
  angle is \<open>NaN\<close>. The detector does not skip the reading: it compares the \<open>NaN\<close> with
  the threshold, both comparisons are false, so the fall counter, \<open>isFallen\<close> and the
  toasts are unchanged, and when no fall is in force the pending start time of the fall
  condition is cleared.
\<close>

theorem fall_angle_degenerate:
  assumes "b = (case baselineFallRef s of None \<Rightarrow> v | Some b0 \<Rightarrow> b0)"
    and "sqrt (vx v * vx v + vy v * vy v + vz v * vz v) = 0
         \<or> sqrt ((vx b)\<^sup>2 + (vy b)\<^sup>2 + (vz b)\<^sup>2) = 0"
  shows "fallAngle v b = None
       \<and> fallCount (fallDetection v now s) = fallCount s
       \<and> isFallen (fallDetection v now s) = isFallen s
       \<and> toasts (fallDetection v now s) = toasts s
       \<and> fallDetectionStartRef (fallDetection v now s) =
           (if isFallen s then fallDetectionStartRef s else None)"
proof -
  have n: "fallAngle v b = None" using assms(2) by (simp add: fallAngle_None)
  then show ?thesis
    using fallDetection_degenerate [of v s now] by (simp add: assms(1))
qed

theorem fall_angle_degenerate_witness:
  "fallCount (fallDetection \<lparr>vx = 0, vy = 0, vz = 0\<rparr> 1250
       (initialTracker\<lparr>baselineFallRef := Some \<lparr>vx = 0, vy = 0, vz = 1\<rparr>,
          fallDetectionStartRef := Some 1000\<rparr>)) = 0
   \<and> \<not> isFallen (fallDetection \<lparr>vx = 0, vy = 0, vz = 0\<rparr> 1250
       (initialTracker\<lparr>baselineFallRef := Some \<lparr>vx = 0, vy = 0, vz = 1\<rparr>,
          fallDetectionStartRef := Some 1000\<rparr>))"
  using fall_angle_degenerate [where b = "\<lparr>vx = 0, vy = 0, vz = 1\<rparr>"
      and s = "initialTracker\<lparr>baselineFallRef := Some \<lparr>vx = 0, vy = 0, vz = 1\<rparr>,
          fallDetectionStartRef := Some 1000\<rparr>"
      and v = "\<lparr>vx = 0, vy = 0, vz = 0\<rparr>" and now = 1250]
  by (simp add: initialTracker_def)

text \<open>
  C5 as stated fails: with the baseline (0, 0, 1) and a fall condition pending since
  1000, the zero reading at 1250 has a \<open>NaN\<close> angle and is not skipped; it clears the
  pending start time.
\<close>

theorem fall_angle_degenerate_counterexample:
  "fallAngle \<lparr>vx = 0, vy = 0, vz = 0\<rparr> \<lparr>vx = 0, vy = 0, vz = 1\<rparr> = None
   \<and> fallDetectionStartRef
       (initialTracker\<lparr>baselineFallRef := Some \<lparr>vx = 0, vy = 0, vz = 1\<rparr>,
          fallDetectionStartRef := Some 1000\<rparr>) = Some 1000
   \<and> fallDetectionStartRef (fallDetection \<lparr>vx = 0, vy = 0, vz = 0\<rparr> 1250
       (initialTracker\<lparr>baselineFallRef := Some \<lparr>vx = 0, vy = 0, vz = 1\<rparr>,
          fallDetectionStartRef := Some 1000\<rparr>)) = None"
  by (simp add: fallDetection_def fallAngle_def num_gt_def initialTracker_def)


section \<open>Properties of the instantaneous speed\<close>

lemma watchPositionCallback_speed:
  assumes "\<not> showResults s" "\<not> paused s"
    "\<not> (truthy (pos_accuracy coords) \<and> num_gt (pos_accuracy coords) 20)"
  shows "speed (watchPositionCallback coords now s) = computedSpeed coords now s"
    and "speedReadings (watchPositionCallback coords now s)
           = speedReadings s @ [computedSpeed coords now s]"
proof -
  have k: "speed (kalmanUpdate f raw cs s') = speed s'"
    "speedReadings (kalmanUpdate f raw cs s') = speedReadings s'" for f raw cs s'
    by (simp_all add: kalmanUpdate_def Let_def)
  show "speed (watchPositionCallback coords now s) = computedSpeed coords now s"
    and "speedReadings (watchPositionCallback coords now s)
           = speedReadings s @ [computedSpeed coords now s]"
    using assms
    by (auto simp: watchPositionCallback_def Let_def k split: option.split)
qed

lemma lowPassUpdate_speed:
  "speed (lowPassUpdate f raw cs s) = speed s"
  "speedReadings (lowPassUpdate f raw cs s) = speedReadings s"
  by (simp_all add: lowPassUpdate_def Let_def)

lemma watchPositionCallback_lpf_speed:
  assumes "\<not> pausedAtBegin"
    "\<not> (truthy (pos_accuracy coords) \<and> num_gt (pos_accuracy coords) ACCURACY_THRESHOLD)"
  shows "speed (watchPositionCallback_lpf os pausedAtBegin coords now s)
           = computedSpeed_lpf os coords now s"
  using assms
  by (auto simp: watchPositionCallback_lpf_def Let_def lowPassUpdate_speed split: option.split)

lemma derivedSpeed_cases:
  "lastLocation s = Some l \<Longrightarrow> lastLocationTimeRef s = Some t \<Longrightarrow> t \<noteq> 0 \<Longrightarrow> t < now \<Longrightarrow>
     derivedSpeed coords now s =
       calculateDistance l \<lparr>latitude = pos_latitude coords, longitude = pos_longitude coords\<rparr>
         / (real_of_int (now - t) / 1000)"
  "lastLocation s = None \<Longrightarrow> derivedSpeed coords now s = 0"
  "lastLocationTimeRef s = None \<Longrightarrow> derivedSpeed coords now s = 0"
  "lastLocationTimeRef s = Some t \<Longrightarrow> now \<le> t \<Longrightarrow> derivedSpeed coords now s = 0"
  by (simp_all add: derivedSpeed_def truthy_def nullToZero_def Let_def split: option.split)

text \<open>
  C7, as the code has it. For a processed fix the first screen sets the speed to the
  device-reported speed when that is present and non-negative; otherwise to the haversine
  distance from the previous raw location over the elapsed seconds, when a previous
  location and its (non-zero) time are recorded and time has elapsed; and to 0 when there
  is no previous location or no time has elapsed. The second screen uses the
  device-reported speed only when \<open>Platform.OS\<close> is \<open>ios\<close>; when it does not use it and there
  is no previous location or no time has elapsed, the speed is 0.
\<close>

theorem instantaneous_speed:
  assumes "\<not> showResults s" and "\<not> paused s"
    and "\<not> (truthy (pos_accuracy coords) \<and> num_gt (pos_accuracy coords) 20)"
  shows "(pos_speed coords = Some v \<and> 0 \<le> v \<longrightarrow>
            speed (watchPositionCallback coords now s) = v)
       \<and> ((case pos_speed coords of None \<Rightarrow> True | Some u \<Rightarrow> u < 0) \<longrightarrow>
            (lastLocation s = Some l \<and> lastLocationTimeRef s = Some t \<and> t \<noteq> 0 \<and> t < now \<longrightarrow>
               speed (watchPositionCallback coords now s) =
                 calculateDistance l
                   \<lparr>latitude = pos_latitude coords, longitude = pos_longitude coords\<rparr>
                   / (real_of_int (now - t) / 1000))
            \<and> (lastLocation s = None \<or> (lastLocationTimeRef s = Some t \<and> now \<le> t) \<longrightarrow>
                 speed (watchPositionCallback coords now s) = 0))
       \<and> (os = Ios \<and> pos_speed coords = Some v \<and> 0 \<le> v \<longrightarrow>
            speed (watchPositionCallback_lpf os False coords now s) = v)
       \<and> (os = Android \<or> (case pos_speed coords of None \<Rightarrow> True | Some u \<Rightarrow> u < 0) \<longrightarrow>
            lastLocation s = None \<or> (lastLocationTimeRef s = Some t \<and> now \<le> t) \<longrightarrow>
            speed (watchPositionCallback_lpf os False coords now s) = 0)"
proof -
  have a: "\<not> (truthy (pos_accuracy coords) \<and> num_gt (pos_accuracy coords) ACCURACY_THRESHOLD)"
    using assms(3) by (simp add: ACCURACY_THRESHOLD_def)
  note A = watchPositionCallback_speed(1) [OF assms, of now]
  have B: "speed (watchPositionCallback_lpf os False coords now s)
           = computedSpeed_lpf os coords now s"
    using a by (intro watchPositionCallback_lpf_speed) simp_all
  show ?thesis
    unfolding A B
    by (auto simp: computedSpeed_def computedSpeed_lpf_def derivedSpeed_cases
          split: option.splits)
qed

theorem instantaneous_speed_witness:
  "speed (watchPositionCallback
       \<lparr>pos_latitude = 0, pos_longitude = 0, pos_accuracy = Some 5, pos_speed = Some 2,
         pos_heading = None\<rparr> 1000 (beginTracking 1 0 initialTracker)) = 2
   \<and> speed (watchPositionCallback_lpf Ios False
       \<lparr>pos_latitude = 0, pos_longitude = 0, pos_accuracy = Some 5, pos_speed = Some 2,
         pos_heading = None\<rparr> 1000 (beginTracking 1 0 initialTracker)) = 2"
  using instantaneous_speed [where s = "beginTracking 1 0 initialTracker" and v = 2
      and os = Ios and now = 1000
      and coords = "\<lparr>pos_latitude = 0, pos_longitude = 0, pos_accuracy = Some 5,
        pos_speed = Some 2, pos_heading = None\<rparr>"]
  by (simp add: beginTracking_def initialTracker_def truthy_def num_gt_def)


text \<open>
  C7 as stated fails on the second screen: on Android a reported speed of 3 m/s is not
  used, and the first fix of a journey gets the speed 0.
\<close>

theorem instantaneous_speed_counterexample:
  "pos_speed \<lparr>pos_latitude = 0, pos_longitude = 0, pos_accuracy = Some 5, pos_speed = Some 3,
       pos_heading = None\<rparr> = Some 3
   \<and> speed (watchPositionCallback_lpf Android False
       \<lparr>pos_latitude = 0, pos_longitude = 0, pos_accuracy = Some 5, pos_speed = Some 3,
         pos_heading = None\<rparr> 1000 (beginTracking_lpf 1 0 initialTracker)) = 0"
  by (simp add: watchPositionCallback_lpf_def computedSpeed_lpf_def derivedSpeed_def Let_def
        beginTracking_lpf_def initialTracker_def truthy_def num_gt_def ACCURACY_THRESHOLD_def)


section \<open>Pause and stop\<close>

lemma paused_handlers_return:
  "paused s \<Longrightarrow> accelerometerHandler v now s = s"
  "paused s \<Longrightarrow> watchPositionCallback coords now s = s"
  by (simp_all add: accelerometerHandler_def watchPositionCallback_def)

text \<open>
  C8 at a failing input. On the second screen a journey begins when \<open>paused\<close> is false, so
  the location callback keeps \<open>paused = false\<close>; the user presses Pause; the next fix is
  processed all the same: a speed reading is appended and the time of the last fix is
  overwritten. (On the first screen the handlers read \<open>pausedRef\<close> and return.)
\<close>

theorem paused_guard_stale:
  "paused ((beginTracking_lpf 1 1000 initialTracker)\<lparr>paused := True\<rparr>)
   \<and> speedReadings ((beginTracking_lpf 1 1000 initialTracker)\<lparr>paused := True\<rparr>) = []
   \<and> speedReadings (watchPositionCallback_lpf Ios (paused initialTracker)
       \<lparr>pos_latitude = 0, pos_longitude = 0, pos_accuracy = Some 5, pos_speed = Some 2,
         pos_heading = None\<rparr> 2000
       ((beginTracking_lpf 1 1000 initialTracker)\<lparr>paused := True\<rparr>)) = [2]
   \<and> lastLocationTimeRef (watchPositionCallback_lpf Ios (paused initialTracker)
       \<lparr>pos_latitude = 0, pos_longitude = 0, pos_accuracy = Some 5, pos_speed = Some 2,
         pos_heading = None\<rparr> 2000
       ((beginTracking_lpf 1 1000 initialTracker)\<lparr>paused := True\<rparr>)) = Some 2000"
  by (simp add: watchPositionCallback_lpf_def computedSpeed_lpf_def Let_def
        beginTracking_lpf_def initialTracker_def truthy_def num_gt_def ACCURACY_THRESHOLD_def)

text \<open>
  C9 at a failing input. On the second screen two equal accelerometer readings start a
  stillness and its 15000 ms alert timer; \<open>stopTracking\<close> at 5000 leaves the timer
  pending, and it fires at 16250 while the summary is shown. The first screen's
  \<open>stopTracking\<close> clears it.
\<close>

theorem still_alert_timer_survives_stop:
  "timers (stopTracking_lpf 5000
      (stillnessDetection \<lparr>vx = 0, vy = 0, vz = 1\<rparr> 1250
        (stillnessDetection \<lparr>vx = 0, vy = 0, vz = 1\<rparr> 1000
          (beginTracking_lpf 1 0 initialTracker))))
     = [\<lparr>timer_id = 1, fire_at = 16250, timer_action = StillAlert\<rparr>]
   \<and> showResults (stopTracking_lpf 5000
      (stillnessDetection \<lparr>vx = 0, vy = 0, vz = 1\<rparr> 1250
        (stillnessDetection \<lparr>vx = 0, vy = 0, vz = 1\<rparr> 1000
          (beginTracking_lpf 1 0 initialTracker))))
   \<and> toasts (fireDueTimers 16250 (stopTracking_lpf 5000
      (stillnessDetection \<lparr>vx = 0, vy = 0, vz = 1\<rparr> 1250
        (stillnessDetection \<lparr>vx = 0, vy = 0, vz = 1\<rparr> 1000
          (beginTracking_lpf 1 0 initialTracker)))))
     = [(''Assistance'', Str ''Do you need any help?'')]
   \<and> timers (stopTracking 5000
      (stillnessDetection \<lparr>vx = 0, vy = 0, vz = 1\<rparr> 1250
        (stillnessDetection \<lparr>vx = 0, vy = 0, vz = 1\<rparr> 1000
          (beginTracking 1 0 initialTracker)))) = []"
  by (simp add: stopTracking_lpf_def stopTracking_def stillnessDetection_def standingStill_def
        beginTracking_lpf_def beginTracking_def initialTracker_def clearWatch_def clearTimeout_def
        journeyMetrics_def setTimeout_def fireDueTimers_def runTimer_def
        showAssistanceAlertToast_def truthy_def nullToZero_def Let_def
        STANDING_STILL_THRESHOLD_def STILLNESS_DURATION_def)

end
